theory Spec2Isabelle
  imports Complex_Main
begin

section \<open>TickerAI: tool adapters, market-data gateway and the agent loop\<close>

text \<open>
  A shallow embedding of the TypeScript sources
  \<^item> \<^verbatim>\<open>server/services/massive.ts\<close> (class \<^verbatim>\<open>MassiveService\<close>),
  \<^item> \<^verbatim>\<open>server/tools/stock-data-tool.ts\<close>, \<^verbatim>\<open>news-tool.ts\<close>, \<^verbatim>\<open>company-details-tool.ts\<close>,
  \<^item> \<^verbatim>\<open>server/services/langchain-agent.ts\<close> (\<^verbatim>\<open>runStockAnalysis\<close>),
  \<^item> \<^verbatim>\<open>server/api/routers/stock.ts\<close> (\<^verbatim>\<open>analyze\<close>) and
  \<^item> \<^verbatim>\<open>app/page.tsx\<close> (the ticker check of \<^verbatim>\<open>handleSubmit\<close>).

  Conventions. A JavaScript \<^verbatim>\<open>throw\<close> is the left injection of a sum, strings are
  \<^typ>\<open>string\<close> (the bytes of their UTF-8 encoding), an optional or possibly \<^verbatim>\<open>undefined\<close> value is an
  \<^typ>\<open>'a option\<close>. JavaScript numbers are idealised as \<^typ>\<open>real\<close>; a quotient whose
  divisor is zero is not a finite number, \<^verbatim>\<open>JSON.stringify\<close> prints it as
  \<^verbatim>\<open>null\<close>, and the model writes it \<^term>\<open>None\<close>. The outside world (the language
  model, the HTTP provider) is passed in explicitly; console logging and the fixed
  pauses between requests are not modelled.
\<close>

subsection \<open>The platform\<close>

text \<open>
  What the program takes from its surroundings: the provider key of the process
  environment, the clock (\<^verbatim>\<open>new Date().toISOString()\<close>), the locale's date format
  (\<^verbatim>\<open>new Date(s).toLocaleDateString()\<close>), the Unicode upper-case mapping of the
  JavaScript engine for a character outside ASCII, and the text in which the input
  validation of the API layer reports a rejected input.
\<close>

record env =
  massive_api_key :: "string option"
  now_iso :: string
  locale_date :: "string \<Rightarrow> string"
  upper_beyond_ascii :: "string \<Rightarrow> string"
  validation_message :: "string \<Rightarrow> string"

subsection \<open>JavaScript exceptions and strings\<close>

datatype js_exn = JsError (message: string) | NonError

text \<open>\<^verbatim>\<open>error instanceof Error ? error.message : dflt\<close>\<close>

definition error_message :: "string \<Rightarrow> js_exn \<Rightarrow> string" where
  "error_message dflt error = (case error of JsError m \<Rightarrow> m | NonError \<Rightarrow> dflt)"

text \<open>\<^verbatim>\<open>try { body } catch (error) { handler(error) }\<close>\<close>

definition try_catch :: "js_exn + 'a \<Rightarrow> (js_exn \<Rightarrow> js_exn + 'a) \<Rightarrow> js_exn + 'a" where
  "try_catch body handler = (case body of Inl error \<Rightarrow> handler error | Inr x \<Rightarrow> Inr x)"

text \<open>Sequencing of two steps the first of which may throw.\<close>

definition and_then :: "js_exn + 'a \<Rightarrow> ('a \<Rightarrow> js_exn + 'b) \<Rightarrow> js_exn + 'b" where
  "and_then step rest = (case step of Inl error \<Rightarrow> Inl error | Inr x \<Rightarrow> rest x)"

text \<open>A value inside a template literal: \<^verbatim>\<open>`${ticker}`\<close> prints \<^verbatim>\<open>undefined\<close> as such.\<close>

definition interpolate :: "string option \<Rightarrow> string" where
  "interpolate x = (case x of None \<Rightarrow> ''undefined'' | Some s \<Rightarrow> s)"

text \<open>Decimal rendering of a natural number (an HTTP status inside a template literal).\<close>

fun show_nat :: "nat \<Rightarrow> string" where
  "show_nat n =
     (if n < 10 then [''0123456789'' ! n]
      else show_nat (n div 10) @ [''0123456789'' ! (n mod 10)])"

declare show_nat.simps [simp del]

text \<open>
  A string is the UTF-8 encoding of the JavaScript string: one byte for an ASCII
  character, a lead byte and its continuation bytes (\<^verbatim>\<open>0x80\<close> to \<^verbatim>\<open>0xBF\<close>) for any other.
\<close>

definition is_ascii :: "char \<Rightarrow> bool" where
  "is_ascii b = ((of_char b :: nat) < 128)"

definition is_continuation :: "char \<Rightarrow> bool" where
  "is_continuation b = (128 \<le> (of_char b :: nat) \<and> (of_char b :: nat) < 192)"

text \<open>The characters of a string, each with its bytes.\<close>

function characters :: "string \<Rightarrow> string list" where
  "characters [] = []"
| "characters (b # rest) =
     (if is_ascii b then [b] # characters rest
      else (b # takeWhile is_continuation rest) # characters (dropWhile is_continuation rest))"
  by pat_completeness auto
termination
  by (relation "measure length") (simp_all add: length_dropWhile_le less_Suc_eq_le)

text \<open>
  \<^verbatim>\<open>s.length\<close>, in UTF-16 code units: a character encoded in four bytes (lead byte
  \<^verbatim>\<open>0xF0\<close> or above) takes two units, any other one.
\<close>

definition code_units :: "string \<Rightarrow> nat" where
  "code_units ch = (case ch of [] \<Rightarrow> 0 | b # _ \<Rightarrow> if (of_char b :: nat) < 240 then 1 else 2)"

definition js_length :: "string \<Rightarrow> nat" where
  "js_length s = sum_list (map code_units (characters s))"

text \<open>
  \<^verbatim>\<open>String.prototype.toUpperCase\<close>. On ASCII the mapping is the table below; a character
  outside ASCII is mapped by the engine's Unicode tables, to one character or to
  several (\<^verbatim>\<open>U+00DF\<close> becomes \<^verbatim>\<open>SS\<close>).
\<close>

definition ascii_upper :: "char \<Rightarrow> char" where
  "ascii_upper ch =
     (case map_of (zip ''abcdefghijklmnopqrstuvwxyz'' ''ABCDEFGHIJKLMNOPQRSTUVWXYZ'') ch of
        None \<Rightarrow> ch
      | Some u \<Rightarrow> u)"

definition upper_of :: "env \<Rightarrow> string \<Rightarrow> string" where
  "upper_of E ch =
     (case ch of
        [b] \<Rightarrow> if is_ascii b then [ascii_upper b] else upper_beyond_ascii E ch
      | _ \<Rightarrow> upper_beyond_ascii E ch)"

definition toUpperCase :: "env \<Rightarrow> string \<Rightarrow> string" where
  "toUpperCase E s = concat (map (upper_of E) (characters s))"

text \<open>
  \<^verbatim>\<open>ticker.toUpperCase()\<close> where \<^verbatim>\<open>ticker\<close> comes from the model's argument record: the
  agent calls \<^verbatim>\<open>tool.func\<close> directly, so the field can be missing, and the method call on
  \<^verbatim>\<open>undefined\<close> throws a \<^verbatim>\<open>TypeError\<close>.
\<close>

definition toUpperCase_of :: "env \<Rightarrow> string option \<Rightarrow> js_exn + string" where
  "toUpperCase_of E x =
     (case x of
        None \<Rightarrow> Inl (JsError ''Cannot read properties of undefined (reading 'toUpperCase')'')
      | Some s \<Rightarrow> Inr (toUpperCase E s))"

text \<open>
  \<^verbatim>\<open>String.prototype.trim\<close> removes the white space and the line terminators of
  ECMAScript from both ends: \<^verbatim>\<open>U+0009\<close> to \<^verbatim>\<open>U+000D\<close>, \<^verbatim>\<open>U+0020\<close>, \<^verbatim>\<open>U+00A0\<close>, \<^verbatim>\<open>U+1680\<close>,
  \<^verbatim>\<open>U+2000\<close> to \<^verbatim>\<open>U+200A\<close>, \<^verbatim>\<open>U+2028\<close>, \<^verbatim>\<open>U+2029\<close>, \<^verbatim>\<open>U+202F\<close>, \<^verbatim>\<open>U+205F\<close>, \<^verbatim>\<open>U+3000\<close> and
  \<^verbatim>\<open>U+FEFF\<close>, here each with its bytes.
\<close>

definition white_space :: "string list" where
  "white_space =
     [[CHR 0x09], [CHR 0x0A], [CHR 0x0B], [CHR 0x0C], [CHR 0x0D], [CHR 0x20],
      [CHR 0xC2, CHR 0xA0],
      [CHR 0xE1, CHR 0x9A, CHR 0x80],
      [CHR 0xE2, CHR 0x80, CHR 0x80], [CHR 0xE2, CHR 0x80, CHR 0x81],
      [CHR 0xE2, CHR 0x80, CHR 0x82], [CHR 0xE2, CHR 0x80, CHR 0x83],
      [CHR 0xE2, CHR 0x80, CHR 0x84], [CHR 0xE2, CHR 0x80, CHR 0x85],
      [CHR 0xE2, CHR 0x80, CHR 0x86], [CHR 0xE2, CHR 0x80, CHR 0x87],
      [CHR 0xE2, CHR 0x80, CHR 0x88], [CHR 0xE2, CHR 0x80, CHR 0x89],
      [CHR 0xE2, CHR 0x80, CHR 0x8A],
      [CHR 0xE2, CHR 0x80, CHR 0xA8], [CHR 0xE2, CHR 0x80, CHR 0xA9],
      [CHR 0xE2, CHR 0x80, CHR 0xAF],
      [CHR 0xE2, CHR 0x81, CHR 0x9F],
      [CHR 0xE3, CHR 0x80, CHR 0x80],
      [CHR 0xEF, CHR 0xBB, CHR 0xBF]]"

text \<open>The white-space character a string starts with, if any.\<close>

definition leading_space :: "string list \<Rightarrow> string \<Rightarrow> string option" where
  "leading_space ws s = find (\<lambda>w. w \<noteq> [] \<and> take (length w) s = w) ws"

function strip :: "string list \<Rightarrow> string \<Rightarrow> string" where
  "strip ws s =
     (case leading_space ws s of
        None \<Rightarrow> s
      | Some w \<Rightarrow> strip ws (drop (length w) s))"
  by pat_completeness auto
termination
proof (relation "measure (\<lambda>(ws, s). length s)")
  show "wf (measure (\<lambda>(ws, s). length s))"
    by simp
next
  fix ws :: "string list" and s w :: string
  assume "leading_space ws s = Some w"
  then have w: "w \<noteq> []" "take (length w) s = w"
    by (auto simp add: leading_space_def find_Some_iff)
  then have "s \<noteq> []"
    by auto
  with w show "((ws, drop (length w) s), (ws, s)) \<in> measure (\<lambda>(ws, s). length s)"
    by simp
qed

declare strip.simps [simp del]

definition trim :: "string \<Rightarrow> string" where
  "trim s = rev (strip (map rev white_space) (rev (strip white_space s)))"

subsection \<open>Market data gateway (\<^verbatim>\<open>MassiveService\<close>)\<close>

text \<open>The fields of \<^verbatim>\<open>StockAggregate\<close>: \<^verbatim>\<open>v vw o c h l t n\<close>.\<close>

record stock_aggregate =
  agg_v :: real
  agg_vw :: real
  agg_o :: real
  agg_c :: real
  agg_h :: real
  agg_l :: real
  agg_t :: real
  agg_n :: real

text \<open>\<^verbatim>\<open>TickerDetails\<close> (without \<^verbatim>\<open>locale\<close> and \<^verbatim>\<open>branding\<close>, which no adapter reads).\<close>

record ticker_details =
  td_ticker :: string
  td_name :: string
  td_market :: string
  td_primary_exchange :: string
  td_type :: string
  td_active :: bool
  td_currency_name :: string
  td_description :: "string option"
  td_market_cap :: "real option"
  td_total_employees :: "real option"
  td_list_date :: "string option"

text \<open>\<^verbatim>\<open>NewsArticle\<close>, the fields the news adapter reads.\<close>

record insight =
  ins_ticker :: string
  ins_sentiment :: string
  ins_sentiment_reasoning :: string

record news_article =
  na_title :: string
  na_publisher_name :: string
  na_published_utc :: string
  na_article_url :: string
  na_description :: "string option"
  na_insights :: "insight list option"

record indicator_value =
  iv_timestamp :: real
  iv_value :: real

text \<open>
  What one outbound \<^verbatim>\<open>fetch\<close> does: it throws (network failure), or it answers with a
  status, a status text and a body whose JSON parse may throw.
\<close>

datatype 'a http = Threw js_exn | Response nat string "js_exn + 'a"

text \<open>\<^verbatim>\<open>response.ok\<close>: the status is in the range 200 to 299.\<close>

definition response_ok :: "nat \<Rightarrow> bool" where
  "response_ok status = (200 \<le> status \<and> status \<le> 299)"

text \<open>
  \<^verbatim>\<open>MassiveService.fetchAPI\<close>: a status outside 200 to 299 is thrown as an error that
  names the status; otherwise the parsed body is returned.
\<close>

definition fetchAPI :: "'a http \<Rightarrow> js_exn + 'a" where
  "fetchAPI reply =
     (case reply of
        Threw error \<Rightarrow> Inl error
      | Response status statusText body \<Rightarrow>
          if \<not> response_ok status
          then Inl (JsError (''Massive API failed: '' @ show_nat status @ '' '' @ statusText))
          else body)"

text \<open>
  The provider: what it answers on each endpoint. The payload is the \<^verbatim>\<open>results\<close> field
  of the body, \<^term>\<open>None\<close> when the field is missing (for the indicators: when
  \<^verbatim>\<open>results\<close> or \<^verbatim>\<open>results.values\<close> is missing).
\<close>

record provider =
  http_aggs :: "string \<Rightarrow> nat \<Rightarrow> stock_aggregate list option http"
  http_details :: "string \<Rightarrow> ticker_details option http"
  http_news :: "string \<Rightarrow> int \<Rightarrow> news_article list option http"
  http_prev :: "string \<Rightarrow> stock_aggregate list option http"
  http_rsi :: "string \<Rightarrow> nat \<Rightarrow> nat \<Rightarrow> indicator_value list option http"
  http_sma :: "string \<Rightarrow> nat \<Rightarrow> nat \<Rightarrow> indicator_value list option http"

text \<open>\<^verbatim>\<open>getStockAggregates(ticker, days)\<close>: throws on an HTTP failure and on an empty result.\<close>

definition getStockAggregates :: "provider \<Rightarrow> string \<Rightarrow> nat \<Rightarrow> js_exn + stock_aggregate list" where
  "getStockAggregates P ticker days =
     and_then (fetchAPI (http_aggs P ticker days)) (\<lambda>results.
       case results of
         None \<Rightarrow> Inl (JsError (''No stock data available for '' @ ticker))
       | Some rs \<Rightarrow>
           if length rs = 0 then Inl (JsError (''No stock data available for '' @ ticker))
           else Inr rs)"

text \<open>\<^verbatim>\<open>getTickerDetails\<close>: every failure is caught and becomes \<^verbatim>\<open>null\<close>.\<close>

definition getTickerDetails :: "provider \<Rightarrow> string \<Rightarrow> js_exn + ticker_details option" where
  "getTickerDetails P ticker =
     try_catch (and_then (fetchAPI (http_details P ticker)) (\<lambda>results. Inr results))
       (\<lambda>error. Inr None)"

text \<open>\<^verbatim>\<open>getNews\<close>: every failure is caught and becomes the empty array.\<close>

definition getNews :: "provider \<Rightarrow> string \<Rightarrow> int \<Rightarrow> js_exn + news_article list" where
  "getNews P ticker limit =
     try_catch
       (and_then (fetchAPI (http_news P ticker limit)) (\<lambda>results.
          Inr (case results of None \<Rightarrow> [] | Some rs \<Rightarrow> rs)))
       (\<lambda>error. Inr [])"

text \<open>\<^verbatim>\<open>getPreviousClose\<close>: \<^verbatim>\<open>data.results?.[0] || null\<close>, failures become \<^verbatim>\<open>null\<close>.\<close>

definition getPreviousClose :: "provider \<Rightarrow> string \<Rightarrow> js_exn + stock_aggregate option" where
  "getPreviousClose P ticker =
     try_catch
       (and_then (fetchAPI (http_prev P ticker)) (\<lambda>results.
          Inr (case results of None \<Rightarrow> None | Some [] \<Rightarrow> None | Some (r # rs) \<Rightarrow> Some r)))
       (\<lambda>error. Inr None)"

text \<open>\<^verbatim>\<open>getRSI\<close> and \<^verbatim>\<open>getSMA\<close>: failures become the empty array.\<close>

definition getRSI :: "provider \<Rightarrow> string \<Rightarrow> nat \<Rightarrow> nat \<Rightarrow> js_exn + indicator_value list" where
  "getRSI P ticker window limit =
     try_catch
       (and_then (fetchAPI (http_rsi P ticker window limit)) (\<lambda>results.
          Inr (case results of None \<Rightarrow> [] | Some vs \<Rightarrow> vs)))
       (\<lambda>error. Inr [])"

definition getSMA :: "provider \<Rightarrow> string \<Rightarrow> nat \<Rightarrow> nat \<Rightarrow> js_exn + indicator_value list" where
  "getSMA P ticker window limit =
     try_catch
       (and_then (fetchAPI (http_sma P ticker window limit)) (\<lambda>results.
          Inr (case results of None \<Rightarrow> [] | Some vs \<Rightarrow> vs)))
       (\<lambda>error. Inr [])"

subsection \<open>Stock metrics (\<^verbatim>\<open>calculateStockMetrics\<close>)\<close>

record stock_metrics =
  currentPrice :: real
  previousClose :: real
  change :: real
  changePercent :: "real option"
  dayHigh :: real
  dayLow :: real
  volume :: real
  avgVolume :: real
  rsi :: "real option"
  sma10 :: "real option"
  sma20 :: "real option"
  priceRangeHigh :: real
  priceRangeLow :: real

text \<open>\<^verbatim>\<open>data[0]?.value || null\<close>: the first value, \<^verbatim>\<open>null\<close> when there is none or when it is \<^verbatim>\<open>0\<close>.\<close>

definition first_value :: "indicator_value list \<Rightarrow> real option" where
  "first_value values =
     (case values of
        [] \<Rightarrow> None
      | x # xs \<Rightarrow> if iv_value x = 0 then None else Some (iv_value x))"

text \<open>
  \<^verbatim>\<open>aggregates[aggregates.length - 2]\<close>: the bar before the last one, \<^verbatim>\<open>undefined\<close>
  when the array has fewer than two elements.
\<close>

definition previous_bar :: "stock_aggregate list \<Rightarrow> stock_aggregate option" where
  "previous_bar aggregates =
     (if 2 \<le> length aggregates then Some (aggregates ! (length aggregates - 2)) else None)"

text \<open>
  The three indicator requests never throw; they are sequenced all the same. On an empty
  array \<^verbatim>\<open>latest\<close> is \<^verbatim>\<open>undefined\<close> and reading \<^verbatim>\<open>latest.c\<close> throws.
\<close>

definition calculateStockMetrics ::
  "provider \<Rightarrow> string \<Rightarrow> stock_aggregate list \<Rightarrow> js_exn + stock_metrics" where
  "calculateStockMetrics P ticker aggregates =
     (let closes = map agg_c aggregates;
          volumes = map agg_v aggregates;
          previous = previous_bar aggregates
      in and_then (getRSI P ticker 14 1) (\<lambda>rsiData.
         and_then (getSMA P ticker 10 1) (\<lambda>sma10Data.
         and_then (getSMA P ticker 20 1) (\<lambda>sma20Data.
           if aggregates = []
           then Inl (JsError ''Cannot read properties of undefined (reading 'c')'')
           else
             let latest = last aggregates in
             Inr \<lparr> currentPrice = agg_c latest,
                   previousClose = (case previous of Some p \<Rightarrow> agg_c p | None \<Rightarrow> agg_c latest),
                   change = agg_c latest - (case previous of Some p \<Rightarrow> agg_c p | None \<Rightarrow> agg_c latest),
                   changePercent =
                     (case previous of
                        Some p \<Rightarrow>
                          if agg_c p = 0 then None
                          else Some (((agg_c latest - agg_c p) / agg_c p) * 100)
                      | None \<Rightarrow> Some 0),
                   dayHigh = agg_h latest,
                   dayLow = agg_l latest,
                   volume = agg_v latest,
                   avgVolume = sum_list volumes / real (length volumes),
                   rsi = first_value rsiData,
                   sma10 = first_value sma10Data,
                   sma20 = first_value sma20Data,
                   priceRangeHigh = Max (set closes),
                   priceRangeLow = Min (set closes) \<rparr>))))"

subsection \<open>Tool adapters\<close>

text \<open>
  The argument record a tool call carries. The agent hands it to \<^verbatim>\<open>tool.func\<close> as the
  model wrote it, so either field may be missing.
\<close>

record tool_args =
  arg_ticker :: "string option"
  arg_limit :: "int option"

text \<open>
  What an adapter returns is a string: either plain text or \<^verbatim>\<open>JSON.stringify(record, null, 2)\<close>.
  The rendering of a record is kept symbolic: the record itself stands for its JSON text.
\<close>

record stock_report =
  sr_ticker :: string
  sr_metrics :: stock_metrics
  sr_timestamp :: string

record formatted_article =
  fa_number :: nat
  fa_title :: string
  fa_publisher :: string
  fa_published :: string
  fa_description :: string
  fa_sentiment :: string
  fa_url :: string

record news_report =
  nr_ticker :: string
  nr_newsCount :: nat
  nr_articles :: "formatted_article list"

record company_report =
  cr_ticker :: string
  cr_name :: string
  cr_description :: string
  cr_market :: string
  cr_primaryExchange :: string
  cr_type :: string
  cr_active :: bool
  cr_marketCap :: "real option"
  cr_totalEmployees :: "real option"
  cr_listDate :: "string option"
  cr_currency :: string

datatype tool_output =
  Text string
  | StockJson stock_report
  | NewsJson news_report
  | CompanyJson company_report

text \<open>\<^verbatim>\<open>new MassiveService()\<close>: the constructor throws when the key is unset or empty.\<close>

definition new_MassiveService :: "env \<Rightarrow> provider \<Rightarrow> js_exn + provider" where
  "new_MassiveService E P =
     (case massive_api_key E of
        None \<Rightarrow> Inl (JsError ''MASSIVE_API_KEY is not configured in environment variables'')
      | Some key \<Rightarrow>
          if key = [] then Inl (JsError ''MASSIVE_API_KEY is not configured in environment variables'')
          else Inr P)"

text \<open>
  The body of the \<^verbatim>\<open>try\<close> block of \<^verbatim>\<open>get_stock_data\<close>. The source evaluates
  \<^verbatim>\<open>ticker.toUpperCase()\<close> three times; it is evaluated once here.
\<close>

definition get_stock_data_body :: "env \<Rightarrow> provider \<Rightarrow> tool_args \<Rightarrow> js_exn + tool_output" where
  "get_stock_data_body E massiveService args =
     and_then (toUpperCase_of E (arg_ticker args)) (\<lambda>TICKER.
     and_then (getStockAggregates massiveService TICKER 30) (\<lambda>aggregates.
     and_then (calculateStockMetrics massiveService TICKER aggregates) (\<lambda>stockData.
       Inr (StockJson \<lparr> sr_ticker = TICKER, sr_metrics = stockData, sr_timestamp = now_iso E \<rparr>))))"

text \<open>\<^verbatim>\<open>func\<close> of \<^verbatim>\<open>createStockDataTool\<close>\<close>

definition get_stock_data :: "env \<Rightarrow> provider \<Rightarrow> tool_args \<Rightarrow> js_exn + tool_output" where
  "get_stock_data E massiveService args =
     try_catch (get_stock_data_body E massiveService args) (\<lambda>error.
       Inr (Text (''Error fetching stock data for '' @ interpolate (arg_ticker args) @ '': ''
                  @ error_message ''Unknown error'' error)))"

text \<open>\<^verbatim>\<open>article.insights?.[0]?.sentiment || "neutral"\<close>\<close>

definition sentiment_of :: "news_article \<Rightarrow> string" where
  "sentiment_of article =
     (case na_insights article of
        None \<Rightarrow> ''neutral''
      | Some [] \<Rightarrow> ''neutral''
      | Some (i # rest) \<Rightarrow> if ins_sentiment i = [] then ''neutral'' else ins_sentiment i)"

definition format_article :: "env \<Rightarrow> nat \<times> news_article \<Rightarrow> formatted_article" where
  "format_article E entry =
     (case entry of (index, article) \<Rightarrow>
        \<lparr> fa_number = index + 1,
          fa_title = na_title article,
          fa_publisher = na_publisher_name article,
          fa_published = locale_date E (na_published_utc article),
          fa_description =
            (case na_description article of
               None \<Rightarrow> ''No description avaliable.''
             | Some d \<Rightarrow> if d = [] then ''No description avaliable.'' else d),
          fa_sentiment = sentiment_of article,
          fa_url = na_article_url article \<rparr>)"

text \<open>The body of the \<^verbatim>\<open>try\<close> block of \<^verbatim>\<open>get_stock_news\<close>; \<^verbatim>\<open>limit\<close> defaults to 5.\<close>

definition get_stock_news_body :: "env \<Rightarrow> provider \<Rightarrow> tool_args \<Rightarrow> js_exn + tool_output" where
  "get_stock_news_body E massiveService args =
     (let limit = (case arg_limit args of None \<Rightarrow> 5 | Some k \<Rightarrow> k) in
      and_then (toUpperCase_of E (arg_ticker args)) (\<lambda>TICKER.
      and_then (getNews massiveService TICKER limit) (\<lambda>news.
        if length news = 0
        then Inr (Text (''No recent news for '' @ interpolate (arg_ticker args)))
        else
          let formattedNews = map (format_article E) (enumerate 0 news) in
          Inr (NewsJson \<lparr> nr_ticker = TICKER,
                          nr_newsCount = length formattedNews,
                          nr_articles = formattedNews \<rparr>))))"

text \<open>\<^verbatim>\<open>func\<close> of \<^verbatim>\<open>createNewsDataTool\<close>\<close>

definition get_stock_news :: "env \<Rightarrow> provider \<Rightarrow> tool_args \<Rightarrow> js_exn + tool_output" where
  "get_stock_news E massiveService args =
     try_catch (get_stock_news_body E massiveService args) (\<lambda>error.
       Inr (Text (''Error fetching news for '' @ interpolate (arg_ticker args) @ '': ''
                  @ error_message ''Unknown error'' error)))"

text \<open>The body of the \<^verbatim>\<open>try\<close> block of \<^verbatim>\<open>get_company_details\<close>.\<close>

definition get_company_details_body :: "env \<Rightarrow> provider \<Rightarrow> tool_args \<Rightarrow> js_exn + tool_output" where
  "get_company_details_body E massiveService args =
     and_then (toUpperCase_of E (arg_ticker args)) (\<lambda>TICKER.
     and_then (getTickerDetails massiveService TICKER) (\<lambda>details.
       case details of
         None \<Rightarrow> Inr (Text (''No company details found for '' @ interpolate (arg_ticker args)))
       | Some d \<Rightarrow>
           Inr (CompanyJson
             \<lparr> cr_ticker = td_ticker d,
               cr_name = td_name d,
               cr_description =
                 (case td_description d of
                    None \<Rightarrow> ''No description available''
                  | Some x \<Rightarrow> if x = [] then ''No description available'' else x),
               cr_market = td_market d,
               cr_primaryExchange = td_primary_exchange d,
               cr_type = td_type d,
               cr_active = td_active d,
               cr_marketCap = td_market_cap d,
               cr_totalEmployees = td_total_employees d,
               cr_listDate = td_list_date d,
               cr_currency = td_currency_name d \<rparr>)))"

text \<open>\<^verbatim>\<open>func\<close> of \<^verbatim>\<open>createCompanyDetailsTool\<close>\<close>

definition get_company_details :: "env \<Rightarrow> provider \<Rightarrow> tool_args \<Rightarrow> js_exn + tool_output" where
  "get_company_details E massiveService args =
     try_catch (get_company_details_body E massiveService args) (\<lambda>error.
       Inr (Text (''Error fetching company details for '' @ interpolate (arg_ticker args) @ '': ''
                  @ error_message ''Unknown error'' error)))"

text \<open>
  A tool as the agent sees it: a name and an effectful function. The effect is a state
  \<^typ>\<open>'w\<close> of the outside world, threaded through every call; a call returns a
  string or throws.
\<close>

record 'w tool =
  tool_name :: string
  tool_func :: "tool_args \<Rightarrow> 'w \<Rightarrow> (js_exn + tool_output) \<times> 'w"

text \<open>The three \<^verbatim>\<open>DynamicStructuredTool\<close> objects, over a constructed service.\<close>

definition stock_data_tool :: "env \<Rightarrow> provider \<Rightarrow> 'w tool" where
  "stock_data_tool E massiveService =
     \<lparr> tool_name = ''get_stock_data'',
       tool_func = (\<lambda>args w. (get_stock_data E massiveService args, w)) \<rparr>"

definition news_tool :: "env \<Rightarrow> provider \<Rightarrow> 'w tool" where
  "news_tool E massiveService =
     \<lparr> tool_name = ''get_stock_news'',
       tool_func = (\<lambda>args w. (get_stock_news E massiveService args, w)) \<rparr>"

definition company_details_tool :: "env \<Rightarrow> provider \<Rightarrow> 'w tool" where
  "company_details_tool E massiveService =
     \<lparr> tool_name = ''get_company_details'',
       tool_func = (\<lambda>args w. (get_company_details E massiveService args, w)) \<rparr>"

text \<open>The factories: each constructs its own service first, which may throw.\<close>

definition createStockDataTool :: "env \<Rightarrow> provider \<Rightarrow> js_exn + 'w tool" where
  "createStockDataTool E P =
     and_then (new_MassiveService E P) (\<lambda>massiveService. Inr (stock_data_tool E massiveService))"

definition createNewsDataTool :: "env \<Rightarrow> provider \<Rightarrow> js_exn + 'w tool" where
  "createNewsDataTool E P =
     and_then (new_MassiveService E P) (\<lambda>massiveService. Inr (news_tool E massiveService))"

definition createCompanyDetailsTool :: "env \<Rightarrow> provider \<Rightarrow> js_exn + 'w tool" where
  "createCompanyDetailsTool E P =
     and_then (new_MassiveService E P) (\<lambda>massiveService. Inr (company_details_tool E massiveService))"

subsection \<open>The agent loop (\<^verbatim>\<open>runStockAnalysis\<close>)\<close>

text \<open>A requested tool invocation: \<^verbatim>\<open>name\<close>, \<^verbatim>\<open>id\<close> (possibly missing) and \<^verbatim>\<open>args\<close>.\<close>

record tool_call =
  tc_name :: string
  tc_id :: "string option"
  tc_args :: tool_args

text \<open>
  The four LangChain message classes. An \<^verbatim>\<open>AIMessage\<close> carries its text and the tool
  invocations it requests (none for a message rebuilt from the chat history); a
  \<^verbatim>\<open>ToolMessage\<close> carries \<^verbatim>\<open>content\<close> and \<^verbatim>\<open>tool_call_id\<close>.
\<close>

datatype message =
  SystemMessage string
  | HumanMessage string
  | AIMessage string "tool_call list"
  | ToolMessage tool_output string

text \<open>What \<^verbatim>\<open>modelWithTools.invoke\<close> resolves to: \<^verbatim>\<open>content\<close> and the optional \<^verbatim>\<open>tool_calls\<close>.\<close>

record ai_response =
  content :: string
  tool_calls :: "tool_call list option"

text \<open>
  The language model: an effectful function of the message sequence, which returns a
  response or throws. The world state lets it answer differently at every invocation.
\<close>

type_synonym 'w model = "message list \<Rightarrow> 'w \<Rightarrow> (js_exn + ai_response) \<times> 'w"

text \<open>\<^verbatim>\<open>response.tool_calls || []\<close>\<close>

definition toolCalls_of :: "ai_response \<Rightarrow> tool_call list" where
  "toolCalls_of response = (case tool_calls response of None \<Rightarrow> [] | Some cs \<Rightarrow> cs)"

text \<open>The system prompt; its text, several paragraphs long, is cut after the first sentence.\<close>

definition SYSTEM_PROMPT :: string where
  "SYSTEM_PROMPT = ''You are TickerAI, an AI-powered stock analysis assistant.''"

definition maxIterations :: nat where
  "maxIterations = 5"

text \<open>
  The \<^verbatim>\<open>try\<close>/\<^verbatim>\<open>catch\<close> inside the inner loop: the tool runs, and the message to push
  carries its result or, if it threw, the error text.
\<close>

definition invoke_tool :: "'w tool \<Rightarrow> tool_call \<Rightarrow> string \<Rightarrow> 'w \<Rightarrow> message \<times> 'w" where
  "invoke_tool tool toolCall call_id w =
     (case tool_func tool (tc_args toolCall) w of
        (Inr result, w') \<Rightarrow> (ToolMessage result call_id, w')
      | (Inl error, w') \<Rightarrow>
          (ToolMessage (Text (''Error: '' @ error_message ''Unknown'' error)) call_id, w'))"

text \<open>
  The inner \<^verbatim>\<open>for (const toolCall of toolCalls)\<close> loop. A call whose name no tool has, or
  whose \<^verbatim>\<open>id\<close> is falsy (missing or empty), is skipped by \<^verbatim>\<open>continue\<close>; otherwise the tool
  is invoked and its message is pushed.
\<close>

fun execute_tool_calls ::
  "'w tool list \<Rightarrow> tool_call list \<Rightarrow> message list \<Rightarrow> 'w \<Rightarrow> message list \<times> 'w" where
  "execute_tool_calls tools [] messages w = (messages, w)"
| "execute_tool_calls tools (toolCall # rest) messages w =
     (case find (\<lambda>t. tool_name t = tc_name toolCall) tools of
        None \<Rightarrow> execute_tool_calls tools rest messages w
      | Some tool \<Rightarrow>
          (case tc_id toolCall of
             None \<Rightarrow> execute_tool_calls tools rest messages w
           | Some call_id \<Rightarrow>
               if call_id = [] then execute_tool_calls tools rest messages w
               else
                 (case invoke_tool tool toolCall call_id w of
                    (pushed, w') \<Rightarrow> execute_tool_calls tools rest (messages @ [pushed]) w')))"

declare execute_tool_calls.simps(2) [simp del]

text \<open>
  What a turn leaves behind: what the \<^verbatim>\<open>try\<close> block returned or threw, the local
  \<^verbatim>\<open>messages\<close> array, the counter \<^verbatim>\<open>iterations\<close> (one increment per model invocation),
  the world, and, as a ghost field, what each model invocation produced.
\<close>

record 'w turn =
  outcome :: "js_exn + string"
  final_messages :: "message list"
  invocations :: nat
  model_log :: "(js_exn + ai_response) list"
  world :: 'w

text \<open>
  The \<^verbatim>\<open>while (iterations < maxIterations)\<close> loop together with the \<^verbatim>\<open>throw\<close> that
  follows it.
\<close>

function agent_loop ::
  "'w model \<Rightarrow> 'w tool list \<Rightarrow> nat \<Rightarrow> message list \<Rightarrow> (js_exn + ai_response) list \<Rightarrow> 'w \<Rightarrow> 'w turn" where
  "agent_loop llm tools iterations messages trace w =
     (if iterations < maxIterations then
        (case llm messages w of
           (Inl error, w1) \<Rightarrow>
             \<lparr> outcome = Inl error, final_messages = messages, invocations = iterations + 1,
               model_log = trace @ [Inl error], world = w1 \<rparr>
         | (Inr response, w1) \<Rightarrow>
             (let toolCalls = toolCalls_of response in
              if length toolCalls = 0 then
                \<lparr> outcome = Inr (content response), final_messages = messages,
                  invocations = iterations + 1, model_log = trace @ [Inr response], world = w1 \<rparr>
              else
                (case execute_tool_calls tools toolCalls
                        (messages @ [AIMessage (content response) toolCalls]) w1 of
                   (messages', w2) \<Rightarrow>
                     agent_loop llm tools (iterations + 1) messages' (trace @ [Inr response]) w2)))
      else
        \<lparr> outcome = Inl (JsError ''Max iterations reached''), final_messages = messages,
          invocations = iterations, model_log = trace, world = w \<rparr>)"
  by pat_completeness auto
termination
  by (relation "measure (\<lambda>(llm, tools, iterations, messages, trace, w). maxIterations - iterations)") auto

declare agent_loop.simps [simp del]

text \<open>The \<^verbatim>\<open>catch\<close> of \<^verbatim>\<open>runStockAnalysis\<close> rethrows every error under one prefix.\<close>

definition wrap_failure :: "js_exn \<Rightarrow> js_exn" where
  "wrap_failure error = JsError (''Failed to analyze: '' @ error_message ''Unknown error'' error)"

text \<open>The \<^verbatim>\<open>try\<close>/\<^verbatim>\<open>catch\<close> block of \<^verbatim>\<open>runStockAnalysis\<close>, from the given messages.\<close>

definition agent_turn :: "'w model \<Rightarrow> 'w tool list \<Rightarrow> message list \<Rightarrow> 'w \<Rightarrow> 'w turn" where
  "agent_turn llm tools messages w =
     (let r = agent_loop llm tools 0 messages [] w in
      r \<lparr> outcome := try_catch (outcome r) (\<lambda>error. Inl (wrap_failure error)) \<rparr>)"

text \<open>The chat history becomes messages: role \<^verbatim>\<open>user\<close> a \<^verbatim>\<open>HumanMessage\<close>, any other an \<^verbatim>\<open>AIMessage\<close>.\<close>

definition history_message :: "string \<times> string \<Rightarrow> message" where
  "history_message msg =
     (case msg of (role, text) \<Rightarrow> if role = ''user'' then HumanMessage text else AIMessage text [])"

definition initial_messages :: "string \<Rightarrow> (string \<times> string) list \<Rightarrow> message list" where
  "initial_messages input chatHistory =
     [SystemMessage SYSTEM_PROMPT] @ map history_message chatHistory @ [HumanMessage input]"

text \<open>The three tools, created in the order of the source; each creation may throw.\<close>

definition create_tools :: "env \<Rightarrow> provider \<Rightarrow> js_exn + 'w tool list" where
  "create_tools E P =
     and_then (createStockDataTool E P) (\<lambda>stock.
     and_then (createNewsDataTool E P) (\<lambda>news.
     and_then (createCompanyDetailsTool E P) (\<lambda>company.
       Inr [stock, news, company])))"

text \<open>
  \<^verbatim>\<open>runStockAnalysis(input, chatHistory)\<close>. The tools are created before the \<^verbatim>\<open>try\<close>
  block, so a failure there is thrown as it is, before any message exists. The
  construction of the model client (\<^verbatim>\<open>new ChatOpenAI\<close>, \<^verbatim>\<open>bindTools\<close>) is taken to succeed:
  the client is the parameter \<open>llm\<close>.
\<close>

definition runStockAnalysis ::
  "env \<Rightarrow> provider \<Rightarrow> 'w model \<Rightarrow> string \<Rightarrow> (string \<times> string) list \<Rightarrow> 'w \<Rightarrow> 'w turn" where
  "runStockAnalysis E P llm input chatHistory w =
     (case create_tools E P of
        Inl error \<Rightarrow>
          \<lparr> outcome = Inl error, final_messages = [], invocations = 0, model_log = [], world = w \<rparr>
      | Inr tools \<Rightarrow> agent_turn llm tools (initial_messages input chatHistory) w)"

text \<open>
  The \<^verbatim>\<open>analyze\<close> procedure of the router: the input ticker is validated
  (\<^verbatim>\<open>z.string().min(1).max(10)\<close>, a length of 1 to 10 code units) and uppercased, the
  agent runs on a fixed prompt, and the caller gets the analysis or an error. A rejected
  input never reaches the procedure: the API layer throws an error whose message is the
  validation library's report. Of the record that the procedure returns (\<^verbatim>\<open>success\<close>,
  \<^verbatim>\<open>ticker\<close>, \<^verbatim>\<open>analysis\<close>, \<^verbatim>\<open>timestamp\<close>) the model keeps the analysis.
\<close>

definition analyze_prompt :: "string \<Rightarrow> string" where
  "analyze_prompt ticker =
     ''Provide a comprehensive analysis of '' @ ticker
     @ ''. Include current price, technical indicators, recent news sentiment, and key insights.''"

definition analyze :: "env \<Rightarrow> provider \<Rightarrow> 'w model \<Rightarrow> string \<Rightarrow> 'w \<Rightarrow> js_exn + string" where
  "analyze E P llm raw w =
     (if js_length raw < 1 \<or> 10 < js_length raw then Inl (JsError (validation_message E raw))
      else
        let ticker = toUpperCase E raw in
        try_catch (outcome (runStockAnalysis E P llm (analyze_prompt ticker) [] w)) (\<lambda>error.
          Inl (JsError (''Failed to analyze '' @ ticker @ '': '' @ error_message ''Unknown error'' error))))"

subsection \<open>The ticker check of \<^verbatim>\<open>handleSubmit\<close>\<close>

text \<open>
  The fragment of JavaScript regular expressions that \<^verbatim>\<open>/^[A-Z]{1,6}([.-][A-Z])?$/\<close>
  uses: a class listing its characters, a class given by a range of code points,
  concatenation and alternatives. \<^term>\<open>Never\<close> matches nothing and \<^term>\<open>Empty\<close> the
  empty string; the bounded repetition and the option are built from them.
\<close>

datatype regex =
  Never
  | Empty
  | Class "char list"
  | Range char char
  | Seq regex regex
  | Alt regex regex

definition in_range :: "char \<Rightarrow> char \<Rightarrow> char \<Rightarrow> bool" where
  "in_range lo hi ch = ((of_char lo :: nat) \<le> of_char ch \<and> (of_char ch :: nat) \<le> of_char hi)"

fun nullable :: "regex \<Rightarrow> bool" where
  "nullable Never = False"
| "nullable Empty = True"
| "nullable (Class cs) = False"
| "nullable (Range lo hi) = False"
| "nullable (Seq r1 r2) = (nullable r1 \<and> nullable r2)"
| "nullable (Alt r1 r2) = (nullable r1 \<or> nullable r2)"

text \<open>What is left of an expression once it has read the character \<open>ch\<close>.\<close>

fun deriv :: "char \<Rightarrow> regex \<Rightarrow> regex" where
  "deriv ch Never = Never"
| "deriv ch Empty = Never"
| "deriv ch (Class cs) = (if ch \<in> set cs then Empty else Never)"
| "deriv ch (Range lo hi) = (if in_range lo hi ch then Empty else Never)"
| "deriv ch (Seq r1 r2) =
     (if nullable r1 then Alt (Seq (deriv ch r1) r2) (deriv ch r2) else Seq (deriv ch r1) r2)"
| "deriv ch (Alt r1 r2) = Alt (deriv ch r1) (deriv ch r2)"

text \<open>\<^verbatim>\<open>/^r$/.test(s)\<close>: the whole string matches.\<close>

definition regex_test :: "regex \<Rightarrow> string \<Rightarrow> bool" where
  "regex_test r s = nullable (fold deriv s r)"

text \<open>\<^verbatim>\<open>r?\<close>, \<^verbatim>\<open>r{0,n}\<close> and \<^verbatim>\<open>r{m,n}\<close>\<close>

definition optional :: "regex \<Rightarrow> regex" where
  "optional r = Alt r Empty"

fun repeat_upto :: "regex \<Rightarrow> nat \<Rightarrow> regex" where
  "repeat_upto r 0 = Empty"
| "repeat_upto r (Suc n) = optional (Seq r (repeat_upto r n))"

fun repeat_between :: "regex \<Rightarrow> nat \<Rightarrow> nat \<Rightarrow> regex" where
  "repeat_between r 0 n = repeat_upto r n"
| "repeat_between r (Suc m) n = Seq r (repeat_between r m (n - 1))"

definition tickerRegex :: regex where
  "tickerRegex =
     Seq (repeat_between (Range CHR ''A'' CHR ''Z'') 1 6)
         (optional (Seq (Class ''.-'') (Range CHR ''A'' CHR ''Z'')))"

text \<open>
  The first branch of \<^verbatim>\<open>handleSubmit\<close> (no analysis performed yet): a blank input is
  ignored, an input whose trimmed, uppercased text fails the expression gets the
  format error, and any other goes on to the existence check and then to the agent.
\<close>

datatype submit = Ignored | InvalidFormat | Proceed string

definition handleSubmit :: "env \<Rightarrow> string \<Rightarrow> submit" where
  "handleSubmit E input =
     (if trim input = [] then Ignored
      else
        let ticker = toUpperCase E (trim input) in
        if \<not> regex_test tickerRegex ticker then InvalidFormat else Proceed ticker)"

definition accepted :: "env \<Rightarrow> string \<Rightarrow> bool" where
  "accepted E input = (case handleSubmit E input of Proceed ticker \<Rightarrow> True | _ \<Rightarrow> False)"

text \<open>
  Modelled from the spec's words, to compare the code with: \<^emph>\<open>1 to 6 letters optionally
  followed by a dot or a hyphen and one more letter\<close>. A letter is an ASCII letter of
  either case.
\<close>

definition is_letter :: "char \<Rightarrow> bool" where
  "is_letter ch =
     (ch \<in> set (''abcdefghijklmnopqrstuvwxyz'' @ ''ABCDEFGHIJKLMNOPQRSTUVWXYZ''))"

definition spec_ticker_format :: "string \<Rightarrow> bool" where
  "spec_ticker_format s =
     (let letters = takeWhile is_letter s; rest = dropWhile is_letter s in
      1 \<le> length letters \<and> length letters \<le> 6 \<and>
      (case rest of
         [] \<Rightarrow> True
       | [sep, ch] \<Rightarrow> (sep = CHR ''.'' \<or> sep = CHR ''-'') \<and> is_letter ch
       | _ \<Rightarrow> False))"

subsection \<open>Predicates on runs\<close>

text \<open>A model invocation that returned a response asking for at least one tool.\<close>

definition requests_tools :: "js_exn + ai_response \<Rightarrow> bool" where
  "requests_tools x =
     (case x of Inl error \<Rightarrow> False | Inr response \<Rightarrow> toolCalls_of response \<noteq> [])"

text \<open>A model invocation that returned a response at all.\<close>

definition responded :: "js_exn + ai_response \<Rightarrow> bool" where
  "responded x = (case x of Inl error \<Rightarrow> False | Inr response \<Rightarrow> True)"

text \<open>
  A requested invocation that the loop runs: a tool has its name and its \<^verbatim>\<open>id\<close> is truthy
  (present and not empty).
\<close>

definition runnable :: "'w tool list \<Rightarrow> tool_call \<Rightarrow> bool" where
  "runnable tools toolCall =
     (find (\<lambda>t. tool_name t = tc_name toolCall) tools \<noteq> None \<and>
      (case tc_id toolCall of None \<Rightarrow> False | Some call_id \<Rightarrow> call_id \<noteq> []))"

definition is_tool_message :: "message \<Rightarrow> bool" where
  "is_tool_message m = (case m of ToolMessage out call_id \<Rightarrow> True | _ \<Rightarrow> False)"

text \<open>
  What one requested invocation contributes: the messages it pushes (none or one) and
  the world after it.
\<close>

definition tool_step :: "'w tool list \<Rightarrow> tool_call \<Rightarrow> 'w \<Rightarrow> message list \<times> 'w" where
  "tool_step tools toolCall w =
     (case find (\<lambda>t. tool_name t = tc_name toolCall) tools of
        None \<Rightarrow> ([], w)
      | Some tool \<Rightarrow>
          (case tc_id toolCall of
             None \<Rightarrow> ([], w)
           | Some call_id \<Rightarrow>
               if call_id = [] then ([], w)
               else (case invoke_tool tool toolCall call_id w of (pushed, w') \<Rightarrow> ([pushed], w'))))"

text \<open>The call identifiers of the tool results of a sequence, in order.\<close>

fun tool_result_ids :: "message list \<Rightarrow> string list" where
  "tool_result_ids [] = []"
| "tool_result_ids (ToolMessage out call_id # rest) = call_id # tool_result_ids rest"
| "tool_result_ids (m # rest) = tool_result_ids rest"

text \<open>The call identifiers of the invocations that the assistant messages of a sequence request, in order.\<close>

fun requested_ids :: "message list \<Rightarrow> string list" where
  "requested_ids [] = []"
| "requested_ids (AIMessage text calls # rest) = List.map_filter tc_id calls @ requested_ids rest"
| "requested_ids (m # rest) = requested_ids rest"

text \<open>The number of invocations that the assistant messages of a sequence request.\<close>

fun requested_calls :: "message list \<Rightarrow> nat" where
  "requested_calls [] = 0"
| "requested_calls (AIMessage text calls # rest) = length calls + requested_calls rest"
| "requested_calls (m # rest) = requested_calls rest"

text \<open>
  Every tool result of the sequence carries an identifier that exactly one invocation
  requested before it carries; \<open>seen\<close> holds the identifiers requested so far.
\<close>

fun results_tagged :: "string list \<Rightarrow> message list \<Rightarrow> bool" where
  "results_tagged seen [] = True"
| "results_tagged seen (AIMessage text calls # rest) =
     results_tagged (seen @ List.map_filter tc_id calls) rest"
| "results_tagged seen (ToolMessage out call_id # rest) =
     (count_list seen call_id = 1 \<and> results_tagged seen rest)"
| "results_tagged seen (m # rest) = results_tagged seen rest"

text \<open>
  Every tool result of the sequence carries an identifier that an invocation requested
  before it carries, whatever the number of such invocations.
\<close>

fun results_requested :: "string list \<Rightarrow> message list \<Rightarrow> bool" where
  "results_requested seen [] = True"
| "results_requested seen (AIMessage text calls # rest) =
     results_requested (seen @ List.map_filter tc_id calls) rest"
| "results_requested seen (ToolMessage out call_id # rest) =
     (call_id \<in> set seen \<and> results_requested seen rest)"
| "results_requested seen (m # rest) = results_requested seen rest"

text \<open>
  The identifiers of the invocations that a model invocation requested and the loop ran,
  in the order of the request.
\<close>

definition executed_ids :: "'w tool list \<Rightarrow> js_exn + ai_response \<Rightarrow> string list" where
  "executed_ids tools x =
     (case x of
        Inl error \<Rightarrow> []
      | Inr response \<Rightarrow> List.map_filter tc_id (filter (runnable tools) (toolCalls_of response)))"

text \<open>
  The texts in which the \<^verbatim>\<open>catch\<close> blocks of the adapters describe an error: they all
  start with \<^verbatim>\<open>Error fetching\<close>.
\<close>

definition is_error_text :: "tool_output \<Rightarrow> bool" where
  "is_error_text out = (case out of Text t \<Rightarrow> take 14 t = ''Error fetching'' | _ \<Rightarrow> False)"

text \<open>A gateway that fails on every call: every request to the provider ends in an error.\<close>

definition always_fails :: "provider \<Rightarrow> bool" where
  "always_fails P =
     ((\<forall>ticker days. \<exists>error. fetchAPI (http_aggs P ticker days) = Inl error) \<and>
      (\<forall>ticker. \<exists>error. fetchAPI (http_details P ticker) = Inl error) \<and>
      (\<forall>ticker limit. \<exists>error. fetchAPI (http_news P ticker limit) = Inl error) \<and>
      (\<forall>ticker. \<exists>error. fetchAPI (http_prev P ticker) = Inl error) \<and>
      (\<forall>ticker window limit. \<exists>error. fetchAPI (http_rsi P ticker window limit) = Inl error) \<and>
      (\<forall>ticker window limit. \<exists>error. fetchAPI (http_sma P ticker window limit) = Inl error))"

text \<open>The strings that an expression matches as a whole.\<close>

fun lang :: "regex \<Rightarrow> string set" where
  "lang Never = {}"
| "lang Empty = {[]}"
| "lang (Class cs) = {[ch] | ch. ch \<in> set cs}"
| "lang (Range lo hi) = {[ch] | ch. in_range lo hi ch}"
| "lang (Seq r1 r2) = {u @ v | u v. u \<in> lang r1 \<and> v \<in> lang r2}"
| "lang (Alt r1 r2) = lang r1 \<union> lang r2"

text \<open>An uppercase ASCII letter.\<close>

definition is_upper :: "char \<Rightarrow> bool" where
  "is_upper ch = (ch \<in> set ''ABCDEFGHIJKLMNOPQRSTUVWXYZ'')"

text \<open>
  The format that the expression of \<^verbatim>\<open>handleSubmit\<close> describes, on the text it is tested
  on (trimmed and uppercased): 1 to 6 letters \<^verbatim>\<open>A\<close> to \<^verbatim>\<open>Z\<close>, optionally followed by a dot
  or a hyphen and one more letter \<^verbatim>\<open>A\<close> to \<^verbatim>\<open>Z\<close>.
\<close>

definition upper_ticker_format :: "string \<Rightarrow> bool" where
  "upper_ticker_format t =
     (let letters = takeWhile is_upper t; rest = dropWhile is_upper t in
      1 \<le> length letters \<and> length letters \<le> 6 \<and>
      (case rest of
         [] \<Rightarrow> True
       | [sep, ch] \<Rightarrow> (sep = CHR ''.'' \<or> sep = CHR ''-'') \<and> is_upper ch
       | _ \<Rightarrow> False))"

subsection \<open>Stubs for concrete runs\<close>

definition bar :: "real \<Rightarrow> stock_aggregate" where
  "bar close = \<lparr> agg_v = 1000, agg_vw = close, agg_o = close, agg_c = close, agg_h = close,
                 agg_l = close, agg_t = 0, agg_n = 1 \<rparr>"

definition ok :: "'a \<Rightarrow> 'a option http" where
  "ok x = Response 200 ''OK'' (Inr (Some x))"

text \<open>Two bars closing at 95 and 100, RSI 55, SMA(10) 98, SMA(20) 90, no news, no details.\<close>

definition scenario_provider :: provider where
  "scenario_provider =
     \<lparr> http_aggs = (\<lambda>ticker days. ok [bar 95, bar 100]),
       http_details = (\<lambda>ticker. Response 200 ''OK'' (Inr None)),
       http_news = (\<lambda>ticker limit. ok []),
       http_prev = (\<lambda>ticker. ok [bar 95]),
       http_rsi = (\<lambda>ticker window limit. ok [\<lparr> iv_timestamp = 0, iv_value = 55 \<rparr>]),
       http_sma = (\<lambda>ticker window limit.
          ok [\<lparr> iv_timestamp = 0, iv_value = (if window = 10 then 98 else 90) \<rparr>]) \<rparr>"

text \<open>A provider that answers every request with status 500.\<close>

definition failing_provider :: provider where
  "failing_provider =
     \<lparr> http_aggs = (\<lambda>ticker days. Response 500 ''Internal Server Error'' (Inl NonError)),
       http_details = (\<lambda>ticker. Response 500 ''Internal Server Error'' (Inl NonError)),
       http_news = (\<lambda>ticker limit. Response 500 ''Internal Server Error'' (Inl NonError)),
       http_prev = (\<lambda>ticker. Response 500 ''Internal Server Error'' (Inl NonError)),
       http_rsi = (\<lambda>ticker window limit. Response 500 ''Internal Server Error'' (Inl NonError)),
       http_sma = (\<lambda>ticker window limit. Response 500 ''Internal Server Error'' (Inl NonError)) \<rparr>"

text \<open>A provider whose aggregates request succeeds with an empty result set.\<close>

definition no_data_provider :: provider where
  "no_data_provider = scenario_provider \<lparr> http_aggs := (\<lambda>ticker days. ok []) \<rparr>"

text \<open>
  A few lines of the Unicode upper-case mapping: \<^verbatim>\<open>U+00DF\<close> to \<^verbatim>\<open>SS\<close>, \<^verbatim>\<open>U+0131\<close> to \<^verbatim>\<open>I\<close>,
  \<^verbatim>\<open>U+017F\<close> to \<^verbatim>\<open>S\<close>, \<^verbatim>\<open>U+FB01\<close> to \<^verbatim>\<open>FI\<close>, \<^verbatim>\<open>U+00E9\<close> to \<^verbatim>\<open>U+00C9\<close>; any other
  character is left as it is.
\<close>

definition unicode_upper_sample :: "string \<Rightarrow> string" where
  "unicode_upper_sample ch =
     (case map_of
        [([CHR 0xC3, CHR 0x9F], ''SS''),
         ([CHR 0xC4, CHR 0xB1], ''I''),
         ([CHR 0xC5, CHR 0xBF], ''S''),
         ([CHR 0xEF, CHR 0xAC, CHR 0x81], ''FI''),
         ([CHR 0xC3, CHR 0xA9], [CHR 0xC3, CHR 0x89])] ch of
        None \<Rightarrow> ch
      | Some u \<Rightarrow> u)"

definition test_env :: env where
  "test_env =
     \<lparr> massive_api_key = Some ''key'', now_iso = ''2026-02-05T00:00:00.000Z'',
       locale_date = (\<lambda>s. s), upper_beyond_ascii = unicode_upper_sample,
       validation_message = (\<lambda>s. ''Invalid input'') \<rparr>"

definition ticker_args :: "string \<Rightarrow> tool_args" where
  "ticker_args ticker = \<lparr> arg_ticker = Some ticker, arg_limit = None \<rparr>"

definition call :: "string \<Rightarrow> string \<Rightarrow> tool_call" where
  "call name cid = \<lparr> tc_name = name, tc_id = Some cid, tc_args = ticker_args ''AAPL'' \<rparr>"

text \<open>
  Model stubs. Their world state is the number of invocations so far; a scripted model
  answers the \<open>k\<close>-th invocation with the \<open>k\<close>-th response of its script and throws
  once the script is used up.
\<close>

definition scripted :: "ai_response list \<Rightarrow> nat model" where
  "scripted script messages k =
     ((if k < length script then Inr (script ! k) else Inl (JsError ''no response'')), k + 1)"

definition news_then_answer :: "nat model" where
  "news_then_answer =
     scripted [\<lparr> content = [], tool_calls = Some [call ''get_stock_news'' ''call_1''] \<rparr>,
               \<lparr> content = ''AAPL is steady.'', tool_calls = Some [] \<rparr>]"

definition stock_then_answer :: "nat model" where
  "stock_then_answer =
     scripted [\<lparr> content = [], tool_calls = Some [call ''get_stock_data'' ''call_1''] \<rparr>,
               \<lparr> content = ''AAPL is steady.'', tool_calls = None \<rparr>]"

text \<open>A model that first asks for a tool nobody registered, then answers.\<close>

definition weather_then_answer :: "nat model" where
  "weather_then_answer =
     scripted [\<lparr> content = [], tool_calls = Some [call ''get_weather'' ''call_1''] \<rparr>,
               \<lparr> content = ''AAPL is steady.'', tool_calls = Some [] \<rparr>]"

text \<open>A model that first asks for a registered tool without a call identifier, then answers.\<close>

definition absent_id_then_answer :: "nat model" where
  "absent_id_then_answer =
     scripted [\<lparr> content = [],
                 tool_calls = Some [\<lparr> tc_name = ''get_stock_news'', tc_id = None,
                                      tc_args = ticker_args ''AAPL'' \<rparr>] \<rparr>,
               \<lparr> content = ''AAPL is steady.'', tool_calls = Some [] \<rparr>]"

text \<open>
  A model endpoint that enforces the tool-calling protocol, as chat completion endpoints
  do: it refuses a message sequence in which a requested invocation has no tool result,
  and otherwise answers as the given model.
\<close>

definition strict :: "nat model \<Rightarrow> nat model" where
  "strict llm messages k =
     (if requested_calls messages = length (tool_result_ids messages) then llm messages k
      else (Inl (JsError ''400 tool_calls must be followed by tool messages''), k + 1))"

text \<open>A model that gives one identifier to two invocations of a response, then answers.\<close>

definition duplicate_ids_then_answer :: "nat model" where
  "duplicate_ids_then_answer =
     scripted [\<lparr> content = [],
                 tool_calls = Some [call ''get_stock_news'' ''dup'', call ''get_company_details'' ''dup''] \<rparr>,
               \<lparr> content = ''AAPL is steady.'', tool_calls = Some [] \<rparr>]"

definition always_requests :: "nat model" where
  "always_requests messages k =
     (Inr \<lparr> content = [], tool_calls = Some [call ''get_stock_news'' (''call_'' @ show_nat k)] \<rparr>,
      k + 1)"

text \<open>The scenario with a single bar, closing at 100.\<close>

definition single_bar_provider :: provider where
  "single_bar_provider = scenario_provider \<lparr> http_aggs := (\<lambda>ticker days. ok [bar 100]) \<rparr>"

section \<open>Properties\<close>

subsection \<open>The gateway methods that never throw\<close>

lemma getRSI_total: "\<exists>vs. getRSI P ticker window limit = Inr vs"
  by (simp add: getRSI_def try_catch_def and_then_def split: sum.splits)

lemma getSMA_total: "\<exists>vs. getSMA P ticker window limit = Inr vs"
  by (simp add: getSMA_def try_catch_def and_then_def split: sum.splits)

lemma getNews_total: "\<exists>news. getNews P ticker limit = Inr news"
  by (simp add: getNews_def try_catch_def and_then_def split: sum.splits)

lemma getTickerDetails_total: "\<exists>details. getTickerDetails P ticker = Inr details"
  by (simp add: getTickerDetails_def try_catch_def and_then_def split: sum.splits)

subsection \<open>Stock metrics\<close>

lemma calculateStockMetrics_eq:
  assumes "aggregates \<noteq> []"
    and "getRSI P ticker 14 1 = Inr rsiData"
    and "getSMA P ticker 10 1 = Inr sma10Data"
    and "getSMA P ticker 20 1 = Inr sma20Data"
  shows "calculateStockMetrics P ticker aggregates =
       Inr \<lparr> currentPrice = agg_c (last aggregates),
             previousClose =
               (case previous_bar aggregates of
                  Some p \<Rightarrow> agg_c p
                | None \<Rightarrow> agg_c (last aggregates)),
             change =
               agg_c (last aggregates) -
               (case previous_bar aggregates of
                  Some p \<Rightarrow> agg_c p
                | None \<Rightarrow> agg_c (last aggregates)),
             changePercent =
               (case previous_bar aggregates of
                  Some p \<Rightarrow>
                    if agg_c p = 0 then None
                    else Some (((agg_c (last aggregates) - agg_c p) / agg_c p) * 100)
                | None \<Rightarrow> Some 0),
             dayHigh = agg_h (last aggregates),
             dayLow = agg_l (last aggregates),
             volume = agg_v (last aggregates),
             avgVolume = sum_list (map agg_v aggregates) / real (length (map agg_v aggregates)),
             rsi = first_value rsiData,
             sma10 = first_value sma10Data,
             sma20 = first_value sma20Data,
             priceRangeHigh = Max (set (map agg_c aggregates)),
             priceRangeLow = Min (set (map agg_c aggregates)) \<rparr>"
  using assms by (simp add: calculateStockMetrics_def and_then_def Let_def)

lemma calculateStockMetrics_total:
  assumes "aggregates \<noteq> []"
  shows "\<exists>m. calculateStockMetrics P ticker aggregates = Inr m"
proof -
  obtain r where r: "getRSI P ticker 14 1 = Inr r" using getRSI_total by blast
  obtain s10 where s10: "getSMA P ticker 10 1 = Inr s10" using getSMA_total by blast
  obtain s20 where s20: "getSMA P ticker 20 1 = Inr s20" using getSMA_total by blast
  show ?thesis using calculateStockMetrics_eq [OF assms r s10 s20] by blast
qed

subsection \<open>The stock data adapter on a successful fetch\<close>

lemma get_stock_data_ok:
  assumes "arg_ticker args = Some ticker"
    and "getStockAggregates P (toUpperCase E ticker) 30 = Inr aggregates"
    and "calculateStockMetrics P (toUpperCase E ticker) aggregates = Inr m"
  shows "get_stock_data E P args =
     Inr (StockJson \<lparr> sr_ticker = toUpperCase E ticker, sr_metrics = m, sr_timestamp = now_iso E \<rparr>)"
  using assms
  by (simp add: get_stock_data_def get_stock_data_body_def try_catch_def and_then_def toUpperCase_of_def)

text \<open>
  C10. When the aggregates series holds exactly one bar, the snapshot reports the
  previous close equal to the current price, a change of 0 and a percentage change of
  0; the computation does not fail and no value is absent. This holds for
  \<^verbatim>\<open>calculateStockMetrics\<close> on a one-bar series whatever the provider answers on the
  indicator endpoints, and for the adapter whenever the gateway returns one bar.
\<close>

theorem single_bar_snapshot:
  "(\<exists>m. calculateStockMetrics P ticker [b] = Inr m \<and> currentPrice m = agg_c b \<and>
        previousClose m = currentPrice m \<and> change m = 0 \<and> changePercent m = Some 0) \<and>
   (arg_ticker args = Some ticker \<and> getStockAggregates P (toUpperCase E ticker) 30 = Inr [b] \<longrightarrow>
      (\<exists>r. get_stock_data E P args = Inr (StockJson r) \<and>
         currentPrice (sr_metrics r) = agg_c b \<and>
         previousClose (sr_metrics r) = currentPrice (sr_metrics r) \<and>
         change (sr_metrics r) = 0 \<and> changePercent (sr_metrics r) = Some 0))"
proof -
  have one: "\<exists>m. calculateStockMetrics P t [b] = Inr m \<and> currentPrice m = agg_c b \<and>
        previousClose m = currentPrice m \<and> change m = 0 \<and> changePercent m = Some 0" for t
  proof -
    obtain r where r: "getRSI P t 14 1 = Inr r" using getRSI_total by blast
    obtain s10 where s10: "getSMA P t 10 1 = Inr s10" using getSMA_total by blast
    obtain s20 where s20: "getSMA P t 20 1 = Inr s20" using getSMA_total by blast
    have ne: "[b] \<noteq> []" by simp
    show ?thesis
      by (simp add: calculateStockMetrics_eq [OF ne r s10 s20] previous_bar_def)
  qed
  have two: "\<exists>r. get_stock_data E P args = Inr (StockJson r) \<and>
         currentPrice (sr_metrics r) = agg_c b \<and>
         previousClose (sr_metrics r) = currentPrice (sr_metrics r) \<and>
         change (sr_metrics r) = 0 \<and> changePercent (sr_metrics r) = Some 0"
    if a: "arg_ticker args = Some ticker" and g: "getStockAggregates P (toUpperCase E ticker) 30 = Inr [b]"
  proof -
    from one [of "toUpperCase E ticker"] obtain m where
      m: "calculateStockMetrics P (toUpperCase E ticker) [b] = Inr m" "currentPrice m = agg_c b"
         "previousClose m = currentPrice m" "change m = 0" "changePercent m = Some 0"
      by blast
    show ?thesis using get_stock_data_ok [OF a g m(1)] m by simp
  qed
  show ?thesis using one two by blast
qed

theorem single_bar_snapshot_witness:
  "arg_ticker (ticker_args ''aapl'') = Some ''aapl'' \<and>
   getStockAggregates single_bar_provider (toUpperCase test_env ''aapl'') 30 = Inr [bar 100] \<and>
   (\<exists>r. get_stock_data test_env single_bar_provider (ticker_args ''aapl'') = Inr (StockJson r) \<and>
      currentPrice (sr_metrics r) = 100 \<and> previousClose (sr_metrics r) = 100 \<and>
      change (sr_metrics r) = 0 \<and> changePercent (sr_metrics r) = Some 0)"
proof -
  have a: "arg_ticker (ticker_args ''aapl'') = Some ''aapl''" by (simp add: ticker_args_def)
  have g: "getStockAggregates single_bar_provider (toUpperCase test_env ''aapl'') 30 = Inr [bar 100]"
    by (simp add: getStockAggregates_def single_bar_provider_def scenario_provider_def ok_def
        fetchAPI_def response_ok_def and_then_def)
  have c: "agg_c (bar 100) = 100" by (simp add: bar_def)
  from single_bar_snapshot [of single_bar_provider "''aapl''" "bar 100" "ticker_args ''aapl''" test_env] a g
  show ?thesis by (auto simp: c)
qed

text \<open>
  C6. When the gateway returns an aggregates series whose last bar closes at 100 and
  whose bar before it closes at 95, the RSI series [55], the SMA(10) series [98] and the
  SMA(20) series [90], the stock data adapter reports change = 5,
  changePercent = 100 * 5 / 95 (between 5.263 and 5.264), rsi = 55, sma10 = 98 and
  sma20 = 90. (Numbers are real numbers here.)
\<close>

theorem scenario_snapshot:
  assumes "arg_ticker args = Some ticker"
    and "getStockAggregates P (toUpperCase E ticker) 30 = Inr (earlier @ [prior, latest])"
    and "agg_c latest = 100" and "agg_c prior = 95"
    and "getRSI P (toUpperCase E ticker) 14 1 = Inr [\<lparr> iv_timestamp = ts1, iv_value = 55 \<rparr>]"
    and "getSMA P (toUpperCase E ticker) 10 1 = Inr [\<lparr> iv_timestamp = ts2, iv_value = 98 \<rparr>]"
    and "getSMA P (toUpperCase E ticker) 20 1 = Inr [\<lparr> iv_timestamp = ts3, iv_value = 90 \<rparr>]"
  shows "\<exists>r. get_stock_data E P args = Inr (StockJson r) \<and>
      change (sr_metrics r) = 5 \<and>
      changePercent (sr_metrics r) = Some (100 * 5 / 95) \<and>
      (5.263 :: real) < 100 * 5 / 95 \<and> (100 * 5 / 95 :: real) < 5.264 \<and>
      rsi (sr_metrics r) = Some 55 \<and> sma10 (sr_metrics r) = Some 98 \<and> sma20 (sr_metrics r) = Some 90"
proof -
  have ne: "earlier @ [prior, latest] \<noteq> []" by simp
  have prev: "previous_bar (earlier @ [prior, latest]) = Some prior"
    by (simp add: previous_bar_def nth_append)
  note eq = calculateStockMetrics_eq [OF ne assms(5) assms(6) assms(7)]
  show ?thesis
    using get_stock_data_ok [OF assms(1) assms(2) eq] assms(3) assms(4)
    by (simp add: prev first_value_def)
qed

theorem scenario_snapshot_witness:
  "\<exists>r. get_stock_data test_env scenario_provider (ticker_args ''AAPL'') = Inr (StockJson r) \<and>
      change (sr_metrics r) = 5 \<and>
      changePercent (sr_metrics r) = Some (100 * 5 / 95) \<and>
      (5.263 :: real) < 100 * 5 / 95 \<and> (100 * 5 / 95 :: real) < 5.264 \<and>
      rsi (sr_metrics r) = Some 55 \<and> sma10 (sr_metrics r) = Some 98 \<and> sma20 (sr_metrics r) = Some 90"
proof (rule scenario_snapshot [where ticker = "''AAPL''" and earlier = "[]" and prior = "bar 95"
      and latest = "bar 100" and ?ts1.0 = 0 and ?ts2.0 = 0 and ?ts3.0 = 0])
  show "arg_ticker (ticker_args ''AAPL'') = Some ''AAPL''" by (simp add: ticker_args_def)
  show "getStockAggregates scenario_provider (toUpperCase test_env ''AAPL'') 30 = Inr ([] @ [bar 95, bar 100])"
    by (simp add: getStockAggregates_def scenario_provider_def ok_def fetchAPI_def response_ok_def
        and_then_def)
  show "agg_c (bar 100) = 100" by (simp add: bar_def)
  show "agg_c (bar 95) = 95" by (simp add: bar_def)
  show "getRSI scenario_provider (toUpperCase test_env ''AAPL'') 14 1 = Inr [\<lparr> iv_timestamp = 0, iv_value = 55 \<rparr>]"
    by (simp add: getRSI_def scenario_provider_def ok_def fetchAPI_def response_ok_def
        and_then_def try_catch_def)
  show "getSMA scenario_provider (toUpperCase test_env ''AAPL'') 10 1 = Inr [\<lparr> iv_timestamp = 0, iv_value = 98 \<rparr>]"
    by (simp add: getSMA_def scenario_provider_def ok_def fetchAPI_def response_ok_def
        and_then_def try_catch_def)
  show "getSMA scenario_provider (toUpperCase test_env ''AAPL'') 20 1 = Inr [\<lparr> iv_timestamp = 0, iv_value = 90 \<rparr>]"
    by (simp add: getSMA_def scenario_provider_def ok_def fetchAPI_def response_ok_def
        and_then_def try_catch_def)
qed

subsection \<open>The adapters\<close>

lemma get_stock_news_empty:
  assumes "arg_ticker args = Some ticker"
    and "getNews P (toUpperCase E ticker) (case arg_limit args of None \<Rightarrow> 5 | Some k \<Rightarrow> k) = Inr []"
  shows "get_stock_news E P args = Inr (Text (''No recent news for '' @ ticker))"
  using assms
  by (simp add: get_stock_news_def get_stock_news_body_def try_catch_def and_then_def
      toUpperCase_of_def interpolate_def Let_def)

lemma get_company_details_absent:
  assumes "arg_ticker args = Some ticker"
    and "getTickerDetails P (toUpperCase E ticker) = Inr None"
  shows "get_company_details E P args = Inr (Text (''No company details found for '' @ ticker))"
  using assms
  by (simp add: get_company_details_def get_company_details_body_def try_catch_def and_then_def
      toUpperCase_of_def interpolate_def)

lemma get_stock_data_failed:
  assumes "arg_ticker args = Some ticker"
    and "getStockAggregates P (toUpperCase E ticker) 30 = Inl error"
  shows "get_stock_data E P args =
     Inr (Text (''Error fetching stock data for '' @ ticker @ '': ''
                @ error_message ''Unknown error'' error))"
  using assms
  by (simp add: get_stock_data_def get_stock_data_body_def try_catch_def and_then_def
      toUpperCase_of_def interpolate_def)

lemma try_catch_text_total:
  "\<exists>out. try_catch body (\<lambda>error. Inr (Text (f error))) = Inr out"
  by (cases body) (simp_all add: try_catch_def)

lemma get_stock_data_total: "\<exists>out. get_stock_data E P args = Inr out"
  unfolding get_stock_data_def by (rule try_catch_text_total)

lemma get_stock_news_total: "\<exists>out. get_stock_news E P args = Inr out"
  unfolding get_stock_news_def by (rule try_catch_text_total)

lemma get_company_details_total: "\<exists>out. get_company_details E P args = Inr out"
  unfolding get_company_details_def by (rule try_catch_text_total)

text \<open>How the aggregates request fails.\<close>

lemma getStockAggregates_upstream:
  assumes "http_aggs P ticker days = Response status statusText body" and "\<not> response_ok status"
  shows "getStockAggregates P ticker days =
     Inl (JsError (''Massive API failed: '' @ show_nat status @ '' '' @ statusText))"
  using assms by (simp add: getStockAggregates_def fetchAPI_def and_then_def)

lemma getStockAggregates_no_data:
  assumes "fetchAPI (http_aggs P ticker days) = Inr results"
    and "results = None \<or> results = Some []"
  shows "getStockAggregates P ticker days = Inl (JsError (''No stock data available for '' @ ticker))"
  using assms by (auto simp: getStockAggregates_def and_then_def)

lemma getNews_failed:
  assumes "fetchAPI (http_news P ticker limit) = Inl error"
  shows "getNews P ticker limit = Inr []"
  using assms by (simp add: getNews_def try_catch_def and_then_def)

lemma getTickerDetails_failed:
  assumes "fetchAPI (http_details P ticker) = Inl error"
  shows "getTickerDetails P ticker = Inr None"
  using assms by (simp add: getTickerDetails_def try_catch_def and_then_def)

lemma getStockAggregates_failed:
  assumes "fetchAPI (http_aggs P ticker days) = Inl error"
  shows "getStockAggregates P ticker days = Inl error"
  using assms by (simp add: getStockAggregates_def and_then_def)

text \<open>
  C7. When the gateway returns an empty news sequence for ticker X, the news adapter
  returns the text "No recent news for X"; when the gateway reports the company details
  of X absent, the company details adapter returns the text
  "No company details found for X". Both are plain strings, not empty structures. The
  gateway is asked for the uppercased ticker and the text carries the ticker as the
  adapter received it.
\<close>

theorem empty_results_sentinels:
  "(arg_ticker args = Some X \<and>
    getNews P (toUpperCase E X) (case arg_limit args of None \<Rightarrow> 5 | Some k \<Rightarrow> k) = Inr [] \<longrightarrow>
      get_stock_news E P args = Inr (Text (''No recent news for '' @ X))) \<and>
   (arg_ticker args = Some X \<and> getTickerDetails P (toUpperCase E X) = Inr None \<longrightarrow>
      get_company_details E P args = Inr (Text (''No company details found for '' @ X)))"
  using get_stock_news_empty [of args X P E] get_company_details_absent [of args X P] by blast

theorem empty_results_sentinels_witness:
  "arg_ticker (ticker_args ''AAPL'') = Some ''AAPL'' \<and>
   getNews scenario_provider (toUpperCase test_env ''AAPL'')
     (case arg_limit (ticker_args ''AAPL'') of None \<Rightarrow> 5 | Some k \<Rightarrow> k) = Inr [] \<and>
   get_stock_news test_env scenario_provider (ticker_args ''AAPL'') = Inr (Text ''No recent news for AAPL'') \<and>
   getTickerDetails scenario_provider (toUpperCase test_env ''AAPL'') = Inr None \<and>
   get_company_details test_env scenario_provider (ticker_args ''AAPL'') = Inr (Text ''No company details found for AAPL'')"
proof -
  have a: "arg_ticker (ticker_args ''AAPL'') = Some ''AAPL''" by (simp add: ticker_args_def)
  have n: "getNews scenario_provider (toUpperCase test_env ''AAPL'')
     (case arg_limit (ticker_args ''AAPL'') of None \<Rightarrow> 5 | Some k \<Rightarrow> k) = Inr []"
    by (simp add: getNews_def scenario_provider_def ok_def fetchAPI_def response_ok_def
        and_then_def try_catch_def ticker_args_def)
  have d: "getTickerDetails scenario_provider (toUpperCase test_env ''AAPL'') = Inr None"
    by (simp add: getTickerDetails_def scenario_provider_def fetchAPI_def response_ok_def
        and_then_def try_catch_def)
  from empty_results_sentinels [of "ticker_args ''AAPL''" "''AAPL''" scenario_provider test_env] a n d
  show ?thesis by simp
qed

subsection \<open>The agent loop, one step at a time\<close>

lemma agent_loop_cap:
  "\<not> iterations < maxIterations \<Longrightarrow>
   agent_loop llm tools iterations messages trace w =
     \<lparr> outcome = Inl (JsError ''Max iterations reached''), final_messages = messages,
       invocations = iterations, model_log = trace, world = w \<rparr>"
  by (subst agent_loop.simps) simp

lemma agent_loop_throw:
  "iterations < maxIterations \<Longrightarrow> llm messages w = (Inl error, w1) \<Longrightarrow>
   agent_loop llm tools iterations messages trace w =
     \<lparr> outcome = Inl error, final_messages = messages, invocations = iterations + 1,
       model_log = trace @ [Inl error], world = w1 \<rparr>"
  by (subst agent_loop.simps) simp

lemma agent_loop_answer:
  "iterations < maxIterations \<Longrightarrow> llm messages w = (Inr response, w1) \<Longrightarrow>
   toolCalls_of response = [] \<Longrightarrow>
   agent_loop llm tools iterations messages trace w =
     \<lparr> outcome = Inr (content response), final_messages = messages,
       invocations = iterations + 1, model_log = trace @ [Inr response], world = w1 \<rparr>"
  by (subst agent_loop.simps) simp

lemma agent_loop_tools:
  "iterations < maxIterations \<Longrightarrow> llm messages w = (Inr response, w1) \<Longrightarrow>
   toolCalls_of response \<noteq> [] \<Longrightarrow>
   execute_tool_calls tools (toolCalls_of response)
     (messages @ [AIMessage (content response) (toolCalls_of response)]) w1 = (messages', w2) \<Longrightarrow>
   agent_loop llm tools iterations messages trace w =
     agent_loop llm tools (iterations + 1) messages' (trace @ [Inr response]) w2"
  by (subst agent_loop.simps) (simp add: Let_def)

lemma agent_loop_cases:
  "iterations \<le> maxIterations \<Longrightarrow>
   \<exists>ext. model_log (agent_loop llm tools iterations messages trace w) = trace @ ext \<and>
     invocations (agent_loop llm tools iterations messages trace w) = iterations + length ext \<and>
     invocations (agent_loop llm tools iterations messages trace w) \<le> maxIterations \<and>
     ((\<exists>pre response. ext = pre @ [Inr response] \<and> list_all requests_tools pre \<and>
          toolCalls_of response = [] \<and>
          outcome (agent_loop llm tools iterations messages trace w) = Inr (content response))
      \<or> (\<exists>pre error. ext = pre @ [Inl error] \<and> list_all requests_tools pre \<and>
          outcome (agent_loop llm tools iterations messages trace w) = Inl error)
      \<or> (list_all requests_tools ext \<and>
          invocations (agent_loop llm tools iterations messages trace w) = maxIterations \<and>
          outcome (agent_loop llm tools iterations messages trace w) = Inl (JsError ''Max iterations reached'')))"
proof (induction llm tools iterations messages trace w rule: agent_loop.induct)
  case (1 llm tools iterations messages trace w)
  let ?R = "agent_loop llm tools iterations messages trace w"
  show ?case
  proof (cases "iterations < maxIterations")
    case False
    with "1.prems" have eq: "iterations = maxIterations" by simp
    have "model_log ?R = trace @ [] \<and> invocations ?R = iterations + length ([] :: (js_exn + ai_response) list)
        \<and> invocations ?R \<le> maxIterations
        \<and> list_all requests_tools [] \<and> invocations ?R = maxIterations
        \<and> outcome ?R = Inl (JsError ''Max iterations reached'')"
      using False eq by (simp add: agent_loop_cap)
    then show ?thesis by blast
  next
    case True
    obtain res w1 where step: "llm messages w = (res, w1)" by (cases "llm messages w")
    show ?thesis
    proof (cases res)
      case (Inl error)
      have "model_log ?R = trace @ [Inl error] \<and> invocations ?R = iterations + length [Inl error :: js_exn + ai_response]
          \<and> invocations ?R \<le> maxIterations
          \<and> [Inl error] = [] @ [Inl error :: js_exn + ai_response] \<and> list_all requests_tools []
          \<and> outcome ?R = Inl error"
        using True step Inl by (simp add: agent_loop_throw)
      then show ?thesis by blast
    next
      case (Inr response)
      show ?thesis
      proof (cases "toolCalls_of response = []")
        case True
        have "model_log ?R = trace @ [Inr response] \<and> invocations ?R = iterations + length [Inr response :: js_exn + ai_response]
            \<and> invocations ?R \<le> maxIterations
            \<and> [Inr response] = [] @ [Inr response :: js_exn + ai_response] \<and> list_all requests_tools []
            \<and> toolCalls_of response = [] \<and> outcome ?R = Inr (content response)"
          using \<open>iterations < maxIterations\<close> step Inr True by (simp add: agent_loop_answer)
        then show ?thesis by blast
      next
        case False
        obtain messages' w2 where ex:
          "execute_tool_calls tools (toolCalls_of response)
             (messages @ [AIMessage (content response) (toolCalls_of response)]) w1 = (messages', w2)"
          by (cases "execute_tool_calls tools (toolCalls_of response)
             (messages @ [AIMessage (content response) (toolCalls_of response)]) w1")
        let ?R' = "agent_loop llm tools (iterations + 1) messages' (trace @ [Inr response]) w2"
        have unfold: "?R = ?R'"
          using True step Inr False ex by (simp add: agent_loop_tools)
        have len: "length (toolCalls_of response) \<noteq> 0" using False by simp
        have le: "iterations + 1 \<le> maxIterations" using True by simp
        from "1.IH" [OF True step [symmetric] Inr refl len ex [symmetric] le]
        obtain ext where ext:
          "model_log ?R' = (trace @ [Inr response]) @ ext"
          "invocations ?R' = iterations + 1 + length ext"
          "invocations ?R' \<le> maxIterations"
          "(\<exists>pre r. ext = pre @ [Inr r] \<and> list_all requests_tools pre \<and> toolCalls_of r = [] \<and>
              outcome ?R' = Inr (content r))
           \<or> (\<exists>pre error. ext = pre @ [Inl error] \<and> list_all requests_tools pre \<and>
              outcome ?R' = Inl error)
           \<or> (list_all requests_tools ext \<and> invocations ?R' = maxIterations \<and>
              outcome ?R' = Inl (JsError ''Max iterations reached''))"
          by blast
        have rt: "requests_tools (Inr response)" using False by (simp add: requests_tools_def)
        have a: "model_log ?R = trace @ (Inr response # ext)" using ext(1) unfold by simp
        have b: "invocations ?R = iterations + length (Inr response # ext)" using ext(2) unfold by simp
        have c: "invocations ?R \<le> maxIterations" using ext(3) unfold by simp
        from ext(4) have d:
          "(\<exists>pre r. Inr response # ext = pre @ [Inr r] \<and> list_all requests_tools pre \<and> toolCalls_of r = [] \<and>
              outcome ?R = Inr (content r))
           \<or> (\<exists>pre error. Inr response # ext = pre @ [Inl error] \<and> list_all requests_tools pre \<and>
              outcome ?R = Inl error)
           \<or> (list_all requests_tools (Inr response # ext) \<and> invocations ?R = maxIterations \<and>
              outcome ?R = Inl (JsError ''Max iterations reached''))"
        proof (elim disjE exE conjE)
          fix pre r
          assume "ext = pre @ [Inr r]" "list_all requests_tools pre" "toolCalls_of r = []"
            "outcome ?R' = Inr (content r)"
          then have "Inr response # ext = (Inr response # pre) @ [Inr r] \<and>
            list_all requests_tools (Inr response # pre) \<and> toolCalls_of r = [] \<and>
            outcome ?R = Inr (content r)" using rt unfold by simp
          then show ?thesis by blast
        next
          fix pre error
          assume "ext = pre @ [Inl error]" "list_all requests_tools pre" "outcome ?R' = Inl error"
          then have "Inr response # ext = (Inr response # pre) @ [Inl error] \<and>
            list_all requests_tools (Inr response # pre) \<and> outcome ?R = Inl error"
            using rt unfold by simp
          then show ?thesis by blast
        next
          assume "list_all requests_tools ext" "invocations ?R' = maxIterations"
            "outcome ?R' = Inl (JsError ''Max iterations reached'')"
          then show ?thesis using rt unfold by simp
        qed
        show ?thesis using a b c d by blast
      qed
    qed
  qed
qed

lemma agent_turn_fields:
  "model_log (agent_turn llm tools messages w) = model_log (agent_loop llm tools 0 messages [] w)"
  "invocations (agent_turn llm tools messages w) = invocations (agent_loop llm tools 0 messages [] w)"
  "final_messages (agent_turn llm tools messages w) = final_messages (agent_loop llm tools 0 messages [] w)"
  "world (agent_turn llm tools messages w) = world (agent_loop llm tools 0 messages [] w)"
  "outcome (agent_turn llm tools messages w) =
     (case outcome (agent_loop llm tools 0 messages [] w) of
        Inl error \<Rightarrow> Inl (wrap_failure error)
      | Inr answer \<Rightarrow> Inr answer)"
  by (simp_all add: agent_turn_def Let_def try_catch_def split: sum.splits)

lemma wrap_failure_cap:
  "wrap_failure (JsError ''Max iterations reached'') = JsError ''Failed to analyze: Max iterations reached''"
  by (simp add: wrap_failure_def error_message_def)

text \<open>How a turn can end.\<close>

lemma agent_turn_cases:
  fixes llm :: "'w model"
  assumes R: "R = agent_turn llm tools messages w"
  shows "invocations R = length (model_log R) \<and> invocations R \<le> maxIterations \<and>
     ((\<exists>pre response. model_log R = pre @ [Inr response] \<and> list_all requests_tools pre \<and>
          toolCalls_of response = [] \<and> outcome R = Inr (content response))
      \<or> (\<exists>pre error. model_log R = pre @ [Inl error] \<and> list_all requests_tools pre \<and>
          outcome R = Inl (wrap_failure error))
      \<or> (list_all requests_tools (model_log R) \<and> invocations R = maxIterations \<and>
          outcome R = Inl (JsError ''Failed to analyze: Max iterations reached'')))"
proof -
  let ?L = "agent_loop llm tools 0 messages [] w"
  from agent_loop_cases [of 0 llm tools messages "[]" w]
  obtain ext where ext: "model_log ?L = ext" "invocations ?L = length ext"
    "invocations ?L \<le> maxIterations"
    "(\<exists>pre response. ext = pre @ [Inr response] \<and> list_all requests_tools pre \<and>
          toolCalls_of response = [] \<and> outcome ?L = Inr (content response))
      \<or> (\<exists>pre error. ext = pre @ [Inl error] \<and> list_all requests_tools pre \<and>
          outcome ?L = Inl error)
      \<or> (list_all requests_tools ext \<and> invocations ?L = maxIterations \<and>
          outcome ?L = Inl (JsError ''Max iterations reached''))"
    by auto
  have f: "model_log R = ext" "invocations R = length ext" "invocations R \<le> maxIterations"
    using ext(1-3) by (simp_all add: R agent_turn_fields)
  from ext(4) have
    "(\<exists>pre response. model_log R = pre @ [Inr response] \<and> list_all requests_tools pre \<and>
          toolCalls_of response = [] \<and> outcome R = Inr (content response))
      \<or> (\<exists>pre error. model_log R = pre @ [Inl error] \<and> list_all requests_tools pre \<and>
          outcome R = Inl (wrap_failure error))
      \<or> (list_all requests_tools (model_log R) \<and> invocations R = maxIterations \<and>
          outcome R = Inl (JsError ''Failed to analyze: Max iterations reached''))"
  proof (elim disjE exE conjE)
    fix pre response
    assume "ext = pre @ [Inr response]" "list_all requests_tools pre" "toolCalls_of response = []"
      "outcome ?L = Inr (content response)"
    then have "model_log R = pre @ [Inr response] \<and> list_all requests_tools pre \<and>
          toolCalls_of response = [] \<and> outcome R = Inr (content response)"
      using f(1) by (simp add: R agent_turn_fields)
    then show ?thesis by blast
  next
    fix pre error
    assume "ext = pre @ [Inl error]" "list_all requests_tools pre" "outcome ?L = Inl error"
    then have "model_log R = pre @ [Inl error] \<and> list_all requests_tools pre \<and>
          outcome R = Inl (wrap_failure error)"
      using f(1) by (simp add: R agent_turn_fields)
    then show ?thesis by blast
  next
    assume "list_all requests_tools ext" "invocations ?L = maxIterations"
      "outcome ?L = Inl (JsError ''Max iterations reached'')"
    then have "list_all requests_tools (model_log R) \<and> invocations R = maxIterations \<and>
          outcome R = Inl (JsError ''Failed to analyze: Max iterations reached'')"
      using f(1) by (simp add: R agent_turn_fields wrap_failure_cap)
    then show ?thesis by blast
  qed
  with f show ?thesis by simp
qed

text \<open>
  C1. Whatever the model does, the loop invokes it at most 5 times. If every invocation
  of the run returns a response that requests at least one tool, the operation fails
  with the max-iterations error, and it does so exactly at the fifth invocation. An
  answer is returned only when the last invocation returned a response without tool
  requests, and it is that response's text: no partial answer comes out of a failed
  turn. A turn that stops before the fifth invocation stops on such a final answer or
  on an error thrown by the model invocation itself, never on the cap.
\<close>

theorem iteration_cap:
  fixes llm :: "'w model"
  assumes R: "R = agent_turn llm tools messages w"
  shows "invocations R \<le> 5 \<and> length (model_log R) = invocations R \<and>
     (list_all requests_tools (model_log R) \<longrightarrow>
        outcome R = Inl (JsError ''Failed to analyze: Max iterations reached'') \<and>
        invocations R = 5) \<and>
     (\<forall>answer. outcome R = Inr answer \<longrightarrow>
        (\<exists>pre response. model_log R = pre @ [Inr response] \<and> list_all requests_tools pre \<and>
           toolCalls_of response = [] \<and> answer = content response)) \<and>
     (invocations R < 5 \<longrightarrow>
        (\<exists>pre response. model_log R = pre @ [Inr response] \<and> toolCalls_of response = [] \<and>
           outcome R = Inr (content response)) \<or>
        (\<exists>pre error. model_log R = pre @ [Inl error] \<and> outcome R = Inl (wrap_failure error)))"
proof -
  note c = agent_turn_cases [OF R]
  have one: "invocations R \<le> 5 \<and> length (model_log R) = invocations R"
    using c by (simp add: maxIterations_def)
  have two: "outcome R = Inl (JsError ''Failed to analyze: Max iterations reached'') \<and>
        invocations R = 5" if "list_all requests_tools (model_log R)"
    using c that by (auto simp: maxIterations_def requests_tools_def)
  have three: "\<exists>pre response. model_log R = pre @ [Inr response] \<and> list_all requests_tools pre \<and>
           toolCalls_of response = [] \<and> answer = content response" if "outcome R = Inr answer" for answer
    using c that by auto
  have four: "(\<exists>pre response. model_log R = pre @ [Inr response] \<and> toolCalls_of response = [] \<and>
           outcome R = Inr (content response)) \<or>
        (\<exists>pre error. model_log R = pre @ [Inl error] \<and> outcome R = Inl (wrap_failure error))"
    if "invocations R < 5"
    using c that by (auto simp: maxIterations_def)
  show ?thesis using one two three four by blast
qed

theorem iteration_cap_witness:
  "list_all requests_tools
     (model_log (agent_turn always_requests [news_tool test_env failing_provider]
        (initial_messages ''Regarding AAPL: outlook?'' []) 0)) \<and>
   outcome (agent_turn always_requests [news_tool test_env failing_provider]
        (initial_messages ''Regarding AAPL: outlook?'' []) 0)
     = Inl (JsError ''Failed to analyze: Max iterations reached'') \<and>
   invocations (agent_turn always_requests [news_tool test_env failing_provider]
        (initial_messages ''Regarding AAPL: outlook?'' []) 0) = 5 \<and>
   invocations (agent_turn news_then_answer [news_tool test_env failing_provider]
        (initial_messages ''Regarding AAPL: outlook?'' []) 0) < 5 \<and>
   outcome (agent_turn news_then_answer [news_tool test_env failing_provider]
        (initial_messages ''Regarding AAPL: outlook?'' []) 0) = Inr ''AAPL is steady.''"
proof -
  have i: "invocations (agent_turn news_then_answer [news_tool test_env failing_provider]
        (initial_messages ''Regarding AAPL: outlook?'' []) 0) < 5"
    by code_simp
  have o: "outcome (agent_turn news_then_answer [news_tool test_env failing_provider]
        (initial_messages ''Regarding AAPL: outlook?'' []) 0) = Inr ''AAPL is steady.''"
    by code_simp
  have a: "list_all requests_tools
     (model_log (agent_turn always_requests [news_tool test_env failing_provider]
        (initial_messages ''Regarding AAPL: outlook?'' []) 0))"
    by code_simp
  from iteration_cap [OF refl, of always_requests "[news_tool test_env failing_provider]"
      "initial_messages ''Regarding AAPL: outlook?'' []" 0] a
  have "outcome (agent_turn always_requests [news_tool test_env failing_provider]
        (initial_messages ''Regarding AAPL: outlook?'' []) 0)
     = Inl (JsError ''Failed to analyze: Max iterations reached'') \<and>
   invocations (agent_turn always_requests [news_tool test_env failing_provider]
        (initial_messages ''Regarding AAPL: outlook?'' []) 0) = 5"
    by blast
  with a i o show ?thesis by (intro conjI) simp_all
qed

subsection \<open>The tool-execution phase\<close>

lemma execute_Cons:
  "execute_tool_calls tools (toolCall # rest) messages w =
     (case tool_step tools toolCall w of
        (new, w') \<Rightarrow> execute_tool_calls tools rest (messages @ new) w')"
  by (simp add: execute_tool_calls.simps(2) tool_step_def split: option.splits prod.splits)

lemma tool_step_skip:
  "\<not> runnable tools toolCall \<Longrightarrow> tool_step tools toolCall w = ([], w)"
  by (auto simp: runnable_def tool_step_def split: option.splits)

lemma tool_step_run:
  assumes "runnable tools toolCall"
  shows "\<exists>out call_id w'. tc_id toolCall = Some call_id \<and>
     tool_step tools toolCall w = ([ToolMessage out call_id], w')"
  using assms
  by (auto simp: runnable_def tool_step_def invoke_tool_def split: option.splits prod.splits sum.splits)

lemma execute_appends:
  "\<exists>new. fst (execute_tool_calls tools calls messages w) = messages @ new \<and>
     list_all is_tool_message new \<and>
     tool_result_ids new = List.map_filter tc_id (filter (runnable tools) calls)"
proof (induction calls arbitrary: messages w)
  case Nil
  show ?case by (simp add: map_filter_simps)
next
  case (Cons toolCall rest)
  show ?case
  proof (cases "runnable tools toolCall")
    case False
    then show ?thesis using Cons.IH [of messages w] by (simp add: execute_Cons tool_step_skip)
  next
    case True
    from tool_step_run [OF True, of w] obtain out call_id w' where
      s: "tc_id toolCall = Some call_id"
         "tool_step tools toolCall w = ([ToolMessage out call_id], w')"
      by blast
    from Cons.IH [of "messages @ [ToolMessage out call_id]" w'] obtain new where
      n: "fst (execute_tool_calls tools rest (messages @ [ToolMessage out call_id]) w') =
            (messages @ [ToolMessage out call_id]) @ new"
         "list_all is_tool_message new"
         "tool_result_ids new = List.map_filter tc_id (filter (runnable tools) rest)"
      by blast
    have "fst (execute_tool_calls tools (toolCall # rest) messages w) =
            messages @ (ToolMessage out call_id # new) \<and>
          list_all is_tool_message (ToolMessage out call_id # new) \<and>
          tool_result_ids (ToolMessage out call_id # new) =
            List.map_filter tc_id (filter (runnable tools) (toolCall # rest))"
      using s n True by (simp add: execute_Cons is_tool_message_def map_filter_simps)
    then show ?thesis by blast
  qed
qed

lemma execute_drop_unrunnable:
  "\<not> runnable tools toolCall \<Longrightarrow>
   execute_tool_calls tools (before @ toolCall # rest) messages w =
     execute_tool_calls tools (before @ rest) messages w"
proof (induction before arbitrary: messages w)
  case Nil
  then show ?case by (simp add: execute_Cons tool_step_skip)
next
  case (Cons c before)
  then show ?case by (simp add: execute_Cons split: prod.splits)
qed

lemma execute_append:
  "execute_tool_calls tools (before @ rest) messages w =
     (case execute_tool_calls tools before messages w of
        (messages1, w1) \<Rightarrow> execute_tool_calls tools rest messages1 w1)"
proof (induction before arbitrary: messages w)
  case Nil
  show ?case by simp
next
  case (Cons c before)
  then show ?case by (simp add: execute_Cons split: prod.splits)
qed

lemma filter_drop_unrunnable:
  "\<not> runnable tools toolCall \<Longrightarrow>
   List.map_filter tc_id (filter (runnable tools) (before @ toolCall # rest)) =
     List.map_filter tc_id (filter (runnable tools) before) @
     List.map_filter tc_id (filter (runnable tools) rest)"
  by (simp add: List.map_filter_def)

text \<open>
  C9. A requested invocation whose tool name no registered tool has, or whose call
  identifier is absent (or empty), is skipped: it pushes no message, raises nothing and
  leaves the world as it was. The other invocations of the same model response are
  processed in their order: the phase runs the invocations before the skipped one and
  then, from the messages and the world they leave, the invocations after it; the tool
  results it appends are those of the invocations before and after that can be run.
  The loop then goes on to the next model invocation, on a sequence whose assistant
  message requests the skipped invocation and holds no tool result for it. How the turn
  ends is decided by that and the later model invocations.
\<close>

theorem unrunnable_call_skipped:
  fixes tools :: "'w tool list" and llm :: "'w model"
  assumes "find (\<lambda>t. tool_name t = tc_name toolCall) tools = None \<or> tc_id toolCall = None \<or>
     tc_id toolCall = Some []"
  shows "tool_step tools toolCall w = ([], w) \<and>
     execute_tool_calls tools [toolCall] messages w = (messages, w) \<and>
     execute_tool_calls tools (before @ toolCall # rest) messages w =
       (case execute_tool_calls tools before messages w of
          (messages1, w1) \<Rightarrow> execute_tool_calls tools rest messages1 w1) \<and>
     (\<exists>new. fst (execute_tool_calls tools (before @ toolCall # rest) messages w) = messages @ new \<and>
        list_all is_tool_message new \<and>
        tool_result_ids new =
          List.map_filter tc_id (filter (runnable tools) before) @
          List.map_filter tc_id (filter (runnable tools) rest)) \<and>
     (iterations < maxIterations \<and> llm messages w = (Inr response, w') \<and>
      toolCalls_of response = before @ toolCall # rest \<and>
      execute_tool_calls tools (before @ rest)
        (messages @ [AIMessage (content response) (before @ toolCall # rest)]) w' = (messages', w'') \<longrightarrow>
        agent_loop llm tools iterations messages trace w =
          agent_loop llm tools (iterations + 1) messages' (trace @ [Inr response]) w'')"
proof -
  have nr: "\<not> runnable tools toolCall" using assms by (auto simp: runnable_def)
  have zero: "tool_step tools toolCall v = ([], v)" for v
    using nr by (rule tool_step_skip)
  have one: "execute_tool_calls tools [toolCall] m v = (m, v)" for m v
    by (simp add: execute_Cons zero)
  have drop: "execute_tool_calls tools (before @ toolCall # rest) m v =
       execute_tool_calls tools (before @ rest) m v" for m v
    using nr by (rule execute_drop_unrunnable)
  have two: "execute_tool_calls tools (before @ toolCall # rest) messages w =
       (case execute_tool_calls tools before messages w of
          (messages1, w1) \<Rightarrow> execute_tool_calls tools rest messages1 w1)"
    unfolding drop by (rule execute_append)
  have three: "\<exists>new. fst (execute_tool_calls tools (before @ toolCall # rest) messages w) = messages @ new \<and>
        list_all is_tool_message new \<and>
        tool_result_ids new =
          List.map_filter tc_id (filter (runnable tools) before) @
          List.map_filter tc_id (filter (runnable tools) rest)"
    using execute_appends [of tools "before @ toolCall # rest" messages w]
    unfolding filter_drop_unrunnable [OF nr] .
  have four: "agent_loop llm tools iterations messages trace w =
          agent_loop llm tools (iterations + 1) messages' (trace @ [Inr response]) w''"
    if "iterations < maxIterations" "llm messages w = (Inr response, w')"
      "toolCalls_of response = before @ toolCall # rest"
      "execute_tool_calls tools (before @ rest)
        (messages @ [AIMessage (content response) (before @ toolCall # rest)]) w' = (messages', w'')"
    using that drop by (intro agent_loop_tools) simp_all
  show ?thesis
  proof (intro conjI impI)
    show "tool_step tools toolCall w = ([], w)" by (rule zero)
    show "execute_tool_calls tools [toolCall] messages w = (messages, w)" by (rule one)
    show "execute_tool_calls tools (before @ toolCall # rest) messages w =
       (case execute_tool_calls tools before messages w of
          (messages1, w1) \<Rightarrow> execute_tool_calls tools rest messages1 w1)" by (rule two)
    show "\<exists>new. fst (execute_tool_calls tools (before @ toolCall # rest) messages w) = messages @ new \<and>
        list_all is_tool_message new \<and>
        tool_result_ids new =
          List.map_filter tc_id (filter (runnable tools) before) @
          List.map_filter tc_id (filter (runnable tools) rest)" by (rule three)
    show "agent_loop llm tools iterations messages trace w =
          agent_loop llm tools (iterations + 1) messages' (trace @ [Inr response]) w''"
      if "iterations < maxIterations \<and> llm messages w = (Inr response, w') \<and>
      toolCalls_of response = before @ toolCall # rest \<and>
      execute_tool_calls tools (before @ rest)
        (messages @ [AIMessage (content response) (before @ toolCall # rest)]) w' = (messages', w'')"
      using that four by (elim conjE)
  qed
qed

text \<open>
  The claim as first stated has the turn not fail. The skipped invocation stays in the
  assistant message that the next model invocation receives, without a tool result.
  With a model endpoint that refuses such a sequence, a request for an unknown tool and
  a request without a call identifier each end the turn with a failure, where the same
  endpoint answers when the requested invocation is run.
\<close>

theorem skipped_call_fails_turn_counterexample:
  "outcome (runStockAnalysis test_env scenario_provider (strict weather_then_answer)
      ''Regarding AAPL: weather?'' [] 0)
     = Inl (JsError ''Failed to analyze: 400 tool_calls must be followed by tool messages'') \<and>
   outcome (runStockAnalysis test_env scenario_provider (strict absent_id_then_answer)
      ''Regarding AAPL: news?'' [] 0)
     = Inl (JsError ''Failed to analyze: 400 tool_calls must be followed by tool messages'') \<and>
   outcome (runStockAnalysis test_env scenario_provider (strict news_then_answer)
      ''Regarding AAPL: news?'' [] 0)
     = Inr ''AAPL is steady.''"
  by code_simp

theorem unrunnable_call_skipped_witness:
  "find (\<lambda>t. tool_name t = tc_name (call ''get_weather'' ''call_1''))
     ([stock_data_tool test_env scenario_provider, news_tool test_env scenario_provider,
       company_details_tool test_env scenario_provider] :: nat tool list) = None \<and>
   execute_tool_calls
     [stock_data_tool test_env scenario_provider, news_tool test_env scenario_provider,
      company_details_tool test_env scenario_provider]
     ([call ''get_company_details'' ''call_2''] @ call ''get_weather'' ''call_1'' #
        [call ''get_stock_news'' ''call_3'']) [] (0::nat) =
     ([ToolMessage (Text ''No company details found for AAPL'') ''call_2'',
       ToolMessage (Text ''No recent news for AAPL'') ''call_3''], 0) \<and>
   tc_id \<lparr> tc_name = ''get_stock_news'', tc_id = None, tc_args = ticker_args ''AAPL'' \<rparr> = None \<and>
   execute_tool_calls
     [stock_data_tool test_env scenario_provider, news_tool test_env scenario_provider,
      company_details_tool test_env scenario_provider]
     ([call ''get_company_details'' ''call_2''] @
        \<lparr> tc_name = ''get_stock_news'', tc_id = None, tc_args = ticker_args ''AAPL'' \<rparr> #
        [call ''get_stock_news'' ''call_3'']) [] (0::nat) =
     ([ToolMessage (Text ''No company details found for AAPL'') ''call_2'',
       ToolMessage (Text ''No recent news for AAPL'') ''call_3''], 0) \<and>
   tc_id \<lparr> tc_name = ''get_stock_news'', tc_id = Some [], tc_args = ticker_args ''AAPL'' \<rparr> = Some [] \<and>
   execute_tool_calls
     [stock_data_tool test_env scenario_provider, news_tool test_env scenario_provider,
      company_details_tool test_env scenario_provider]
     ([call ''get_company_details'' ''call_2''] @
        \<lparr> tc_name = ''get_stock_news'', tc_id = Some [], tc_args = ticker_args ''AAPL'' \<rparr> #
        [call ''get_stock_news'' ''call_3'']) [] (0::nat) =
     ([ToolMessage (Text ''No company details found for AAPL'') ''call_2'',
       ToolMessage (Text ''No recent news for AAPL'') ''call_3''], 0) \<and>
   agent_loop weather_then_answer
     [stock_data_tool test_env scenario_provider, news_tool test_env scenario_provider,
      company_details_tool test_env scenario_provider] 0
     (initial_messages ''Regarding AAPL: weather?'' []) [] 0 =
   agent_loop weather_then_answer
     [stock_data_tool test_env scenario_provider, news_tool test_env scenario_provider,
      company_details_tool test_env scenario_provider] (0 + 1)
     (initial_messages ''Regarding AAPL: weather?'' [] @ [AIMessage [] [call ''get_weather'' ''call_1'']])
     ([] @ [Inr \<lparr> content = [], tool_calls = Some [call ''get_weather'' ''call_1''] \<rparr>]) 1"
proof -
  let ?tools = "[stock_data_tool test_env scenario_provider, news_tool test_env scenario_provider,
      company_details_tool test_env scenario_provider] :: nat tool list"
  let ?weather = "call ''get_weather'' ''call_1''"
  let ?absent = "\<lparr> tc_name = ''get_stock_news'', tc_id = None, tc_args = ticker_args ''AAPL'' \<rparr>"
  let ?empty = "\<lparr> tc_name = ''get_stock_news'', tc_id = Some [], tc_args = ticker_args ''AAPL'' \<rparr>"
  let ?before = "[call ''get_company_details'' ''call_2'']"
  let ?rest = "[call ''get_stock_news'' ''call_3'']"
  let ?init = "initial_messages ''Regarding AAPL: weather?'' []"
  let ?r1 = "\<lparr> content = [], tool_calls = Some [?weather] \<rparr>"
  have a: "find (\<lambda>t. tool_name t = tc_name ?weather) ?tools = None"
    by (simp add: stock_data_tool_def news_tool_def company_details_tool_def call_def)
  have i: "tc_id ?absent = None" by simp
  have j: "tc_id ?empty = Some []" by simp
  have b: "execute_tool_calls ?tools ?before [] (0::nat) =
     ([ToolMessage (Text ''No company details found for AAPL'') ''call_2''], 0)"
    by code_simp
  have c: "execute_tool_calls ?tools ?rest
     [ToolMessage (Text ''No company details found for AAPL'') ''call_2''] (0::nat) =
     ([ToolMessage (Text ''No company details found for AAPL'') ''call_2'',
       ToolMessage (Text ''No recent news for AAPL'') ''call_3''], 0)"
    by code_simp
  note t = unrunnable_call_skipped [where tools = ?tools and toolCall = ?weather, OF disjI1 [OF a]]
  note u = unrunnable_call_skipped [where tools = ?tools and toolCall = ?absent,
      OF disjI2 [OF disjI1 [OF i]]]
  have d: "execute_tool_calls ?tools (?before @ ?weather # ?rest) [] (0::nat) =
     ([ToolMessage (Text ''No company details found for AAPL'') ''call_2'',
       ToolMessage (Text ''No recent news for AAPL'') ''call_3''], 0)"
    unfolding t [where before = ?before and rest = ?rest and messages = "[]" and w = 0,
        THEN conjunct2, THEN conjunct2, THEN conjunct1] b
    using c by simp
  have e: "execute_tool_calls ?tools (?before @ ?absent # ?rest) [] (0::nat) =
     ([ToolMessage (Text ''No company details found for AAPL'') ''call_2'',
       ToolMessage (Text ''No recent news for AAPL'') ''call_3''], 0)"
    unfolding u [where before = ?before and rest = ?rest and messages = "[]" and w = 0,
        THEN conjunct2, THEN conjunct2, THEN conjunct1] b
    using c by simp
  note v = unrunnable_call_skipped [where tools = ?tools and toolCall = ?empty,
      OF disjI2 [OF disjI2 [OF j]]]
  have g: "execute_tool_calls ?tools (?before @ ?empty # ?rest) [] (0::nat) =
     ([ToolMessage (Text ''No company details found for AAPL'') ''call_2'',
       ToolMessage (Text ''No recent news for AAPL'') ''call_3''], 0)"
    unfolding v [where before = ?before and rest = ?rest and messages = "[]" and w = 0,
        THEN conjunct2, THEN conjunct2, THEN conjunct1] b
    using c by simp
  have h: "0 < maxIterations \<and> weather_then_answer ?init 0 = (Inr ?r1, 1) \<and>
      toolCalls_of ?r1 = [] @ ?weather # [] \<and>
      execute_tool_calls ?tools ([] @ [])
        (?init @ [AIMessage (content ?r1) ([] @ ?weather # [])]) 1 =
        (?init @ [AIMessage [] [?weather]], 1)"
    by (simp add: maxIterations_def weather_then_answer_def scripted_def toolCalls_of_def)
  have f: "agent_loop weather_then_answer ?tools 0 ?init [] 0 =
     agent_loop weather_then_answer ?tools (0 + 1) (?init @ [AIMessage [] [?weather]])
       ([] @ [Inr ?r1]) 1"
    using h
    by (rule t [where before = "[]" and rest = "[]" and iterations = 0 and llm = weather_then_answer
        and messages = ?init and w = 0 and response = ?r1 and w' = 1 and w'' = 1
        and messages' = "?init @ [AIMessage [] [?weather]]" and trace = "[]",
        THEN conjunct2, THEN conjunct2, THEN conjunct2, THEN conjunct2, rule_format])
  show ?thesis using a d i e j g f by (intro conjI)
qed

subsection \<open>Tool results and the requests they answer\<close>

lemma tool_result_ids_append:
  "tool_result_ids (xs @ ys) = tool_result_ids xs @ tool_result_ids ys"
  by (induction xs rule: tool_result_ids.induct) simp_all

lemma requested_ids_append:
  "requested_ids (xs @ ys) = requested_ids xs @ requested_ids ys"
  by (induction xs rule: requested_ids.induct) simp_all

lemma results_tagged_append:
  "results_tagged seen (xs @ ys) =
     (results_tagged seen xs \<and> results_tagged (seen @ requested_ids xs) ys)"
  by (induction seen xs rule: results_tagged.induct) simp_all

lemma results_requested_append:
  "results_requested seen (xs @ ys) =
     (results_requested seen xs \<and> results_requested (seen @ requested_ids xs) ys)"
  by (induction seen xs rule: results_requested.induct) simp_all

lemma tool_messages_request_nothing:
  "list_all is_tool_message new \<Longrightarrow> requested_ids new = []"
  by (induction new rule: requested_ids.induct) (simp_all add: is_tool_message_def)

lemma tool_messages_tagged:
  "list_all is_tool_message new \<Longrightarrow>
   results_tagged seen new = (\<forall>i \<in> set (tool_result_ids new). count_list seen i = 1)"
  by (induction seen new rule: results_tagged.induct) (simp_all add: is_tool_message_def)

lemma tool_messages_requested:
  "list_all is_tool_message new \<Longrightarrow>
   results_requested seen new = (\<forall>i \<in> set (tool_result_ids new). i \<in> set seen)"
  by (induction seen new rule: results_requested.induct) (simp_all add: is_tool_message_def)

lemma count_list_distinct:
  "distinct xs \<Longrightarrow> x \<in> set xs \<Longrightarrow> count_list xs x = 1"
  by (induction xs) auto

lemma set_map_filter_filter:
  "set (List.map_filter f (filter Q xs)) \<subseteq> set (List.map_filter f xs)"
  by (induction xs) (auto simp: map_filter_simps split: option.splits)

lemma executed_ids_simps:
  "executed_ids tools (Inl error) = []"
  "executed_ids tools (Inr response) =
     List.map_filter tc_id (filter (runnable tools) (toolCalls_of response))"
  by (simp_all add: executed_ids_def)

lemma agent_loop_extends:
  "\<exists>ext. final_messages (agent_loop llm tools iterations messages trace w) = messages @ ext"
proof (induction llm tools iterations messages trace w rule: agent_loop.induct)
  case (1 llm tools iterations messages trace w)
  show ?case
  proof (cases "iterations < maxIterations")
    case False
    then show ?thesis by (simp add: agent_loop_cap)
  next
    case True
    obtain res w1 where step: "llm messages w = (res, w1)" by (cases "llm messages w")
    show ?thesis
    proof (cases res)
      case (Inl error)
      then show ?thesis using True step by (simp add: agent_loop_throw)
    next
      case (Inr response)
      show ?thesis
      proof (cases "toolCalls_of response = []")
        case True
        then show ?thesis using \<open>iterations < maxIterations\<close> step Inr by (simp add: agent_loop_answer)
      next
        case False
        obtain messages' w2 where ex:
          "execute_tool_calls tools (toolCalls_of response)
             (messages @ [AIMessage (content response) (toolCalls_of response)]) w1 = (messages', w2)"
          by (cases "execute_tool_calls tools (toolCalls_of response)
             (messages @ [AIMessage (content response) (toolCalls_of response)]) w1")
        have len: "length (toolCalls_of response) \<noteq> 0" using False by simp
        from execute_appends [of tools "toolCalls_of response"
            "messages @ [AIMessage (content response) (toolCalls_of response)]" w1] ex
        obtain new where new:
          "messages' = (messages @ [AIMessage (content response) (toolCalls_of response)]) @ new"
          by auto
        from "1.IH" [OF True step [symmetric] Inr refl len ex [symmetric]]
        obtain ext where
          "final_messages (agent_loop llm tools (iterations + 1) messages' (trace @ [Inr response]) w2)
             = messages' @ ext" by blast
        then show ?thesis
          using agent_loop_tools [OF True _ False ex] step Inr new by simp
      qed
    qed
  qed
qed

lemma agent_loop_requested:
  "results_requested [] messages \<Longrightarrow>
   results_requested [] (final_messages (agent_loop llm tools iterations messages trace w))"
proof (induction llm tools iterations messages trace w rule: agent_loop.induct)
  case (1 llm tools iterations messages trace w)
  show ?case
  proof (cases "iterations < maxIterations")
    case False
    then show ?thesis using "1.prems" by (simp add: agent_loop_cap)
  next
    case True
    obtain res w1 where step: "llm messages w = (res, w1)" by (cases "llm messages w")
    show ?thesis
    proof (cases res)
      case (Inl error)
      then show ?thesis using True step "1.prems" by (simp add: agent_loop_throw)
    next
      case (Inr response)
      show ?thesis
      proof (cases "toolCalls_of response = []")
        case True
        then show ?thesis
          using \<open>iterations < maxIterations\<close> step Inr "1.prems" by (simp add: agent_loop_answer)
      next
        case False
        let ?calls = "toolCalls_of response"
        let ?ai = "AIMessage (content response) ?calls"
        obtain messages' w2 where ex:
          "execute_tool_calls tools ?calls (messages @ [?ai]) w1 = (messages', w2)"
          by (cases "execute_tool_calls tools ?calls (messages @ [?ai]) w1")
        have len: "length ?calls \<noteq> 0" using False by simp
        let ?L' = "agent_loop llm tools (iterations + 1) messages' (trace @ [Inr response]) w2"
        have unfold: "agent_loop llm tools iterations messages trace w = ?L'"
          using agent_loop_tools [OF True _ False ex] step Inr by simp
        from execute_appends [of tools ?calls "messages @ [?ai]" w1] ex
        obtain new where new: "messages' = (messages @ [?ai]) @ new"
          "list_all is_tool_message new"
          "tool_result_ids new = List.map_filter tc_id (filter (runnable tools) ?calls)"
          by auto
        have "results_requested (requested_ids messages @ List.map_filter tc_id ?calls) new"
        proof -
          have "i \<in> set (requested_ids messages @ List.map_filter tc_id ?calls)"
            if "i \<in> set (tool_result_ids new)" for i
            using that new(3) set_map_filter_filter [of tc_id "runnable tools" ?calls] by auto
          then show ?thesis using new(2) by (simp add: tool_messages_requested)
        qed
        then have t: "results_requested [] messages'"
          using "1.prems" new(1) by (simp add: results_requested_append requested_ids_append)
        show ?thesis
          using "1.IH" [OF True step [symmetric] Inr refl len ex [symmetric] t] unfold by simp
      qed
    qed
  qed
qed

lemma agent_loop_tagged:
  "results_tagged [] messages \<Longrightarrow>
   distinct (requested_ids (final_messages (agent_loop llm tools iterations messages trace w))) \<Longrightarrow>
   results_tagged [] (final_messages (agent_loop llm tools iterations messages trace w))"
proof (induction llm tools iterations messages trace w rule: agent_loop.induct)
  case (1 llm tools iterations messages trace w)
  show ?case
  proof (cases "iterations < maxIterations")
    case False
    then show ?thesis using "1.prems" by (simp add: agent_loop_cap)
  next
    case True
    obtain res w1 where step: "llm messages w = (res, w1)" by (cases "llm messages w")
    show ?thesis
    proof (cases res)
      case (Inl error)
      then show ?thesis using True step "1.prems" by (simp add: agent_loop_throw)
    next
      case (Inr response)
      show ?thesis
      proof (cases "toolCalls_of response = []")
        case True
        then show ?thesis
          using \<open>iterations < maxIterations\<close> step Inr "1.prems" by (simp add: agent_loop_answer)
      next
        case False
        let ?calls = "toolCalls_of response"
        let ?ai = "AIMessage (content response) ?calls"
        obtain messages' w2 where ex:
          "execute_tool_calls tools ?calls (messages @ [?ai]) w1 = (messages', w2)"
          by (cases "execute_tool_calls tools ?calls (messages @ [?ai]) w1")
        have len: "length ?calls \<noteq> 0" using False by simp
        let ?L' = "agent_loop llm tools (iterations + 1) messages' (trace @ [Inr response]) w2"
        have unfold: "agent_loop llm tools iterations messages trace w = ?L'"
          using agent_loop_tools [OF True _ False ex] step Inr by simp
        from execute_appends [of tools ?calls "messages @ [?ai]" w1] ex
        obtain new where new: "messages' = (messages @ [?ai]) @ new"
          "list_all is_tool_message new"
          "tool_result_ids new = List.map_filter tc_id (filter (runnable tools) ?calls)"
          by auto
        obtain ext where ext: "final_messages ?L' = messages' @ ext"
          using agent_loop_extends [of llm tools "iterations + 1" messages' "trace @ [Inr response]" w2]
          by blast
        have d: "distinct (requested_ids (final_messages ?L'))" using "1.prems"(2) unfold by simp
        then have d': "distinct (requested_ids messages @ List.map_filter tc_id ?calls)"
          using ext new by (auto simp: requested_ids_append tool_messages_request_nothing)
        have "results_tagged (requested_ids messages @ List.map_filter tc_id ?calls) new"
        proof -
          have "count_list (requested_ids messages @ List.map_filter tc_id ?calls) i = 1"
            if "i \<in> set (tool_result_ids new)" for i
          proof -
            have "i \<in> set (List.map_filter tc_id ?calls)"
              using that new(3) set_map_filter_filter [of tc_id "runnable tools" ?calls] by auto
            then show ?thesis using d' by (intro count_list_distinct) auto
          qed
          then show ?thesis using new(2) by (simp add: tool_messages_tagged)
        qed
        then have t: "results_tagged [] messages'"
          using "1.prems"(1) new(1) by (simp add: results_tagged_append requested_ids_append)
        show ?thesis
          using "1.IH" [OF True step [symmetric] Inr refl len ex [symmetric] t d] unfold by simp
      qed
    qed
  qed
qed

lemma agent_loop_result_ids:
  "tool_result_ids messages = concat (map (executed_ids tools) trace) \<Longrightarrow>
   tool_result_ids (final_messages (agent_loop llm tools iterations messages trace w)) =
     concat (map (executed_ids tools) (model_log (agent_loop llm tools iterations messages trace w)))"
proof (induction llm tools iterations messages trace w rule: agent_loop.induct)
  case (1 llm tools iterations messages trace w)
  show ?case
  proof (cases "iterations < maxIterations")
    case False
    then show ?thesis using "1.prems" by (simp add: agent_loop_cap)
  next
    case True
    obtain res w1 where step: "llm messages w = (res, w1)" by (cases "llm messages w")
    show ?thesis
    proof (cases res)
      case (Inl error)
      then show ?thesis using True step "1.prems" by (simp add: agent_loop_throw executed_ids_simps)
    next
      case (Inr response)
      show ?thesis
      proof (cases "toolCalls_of response = []")
        case True
        then show ?thesis
          using \<open>iterations < maxIterations\<close> step Inr "1.prems"
          by (simp add: agent_loop_answer executed_ids_simps map_filter_simps)
      next
        case False
        let ?calls = "toolCalls_of response"
        let ?ai = "AIMessage (content response) ?calls"
        obtain messages' w2 where ex:
          "execute_tool_calls tools ?calls (messages @ [?ai]) w1 = (messages', w2)"
          by (cases "execute_tool_calls tools ?calls (messages @ [?ai]) w1")
        have len: "length ?calls \<noteq> 0" using False by simp
        let ?L' = "agent_loop llm tools (iterations + 1) messages' (trace @ [Inr response]) w2"
        have unfold: "agent_loop llm tools iterations messages trace w = ?L'"
          using agent_loop_tools [OF True _ False ex] step Inr by simp
        from execute_appends [of tools ?calls "messages @ [?ai]" w1] ex
        obtain new where new: "messages' = (messages @ [?ai]) @ new"
          "tool_result_ids new = List.map_filter tc_id (filter (runnable tools) ?calls)"
          by auto
        have t: "tool_result_ids messages' = concat (map (executed_ids tools) (trace @ [Inr response]))"
          using new "1.prems" by (simp add: tool_result_ids_append executed_ids_simps)
        show ?thesis
          using "1.IH" [OF True step [symmetric] Inr refl len ex [symmetric] t] unfold by simp
      qed
    qed
  qed
qed

subsection \<open>\<^verbatim>\<open>runStockAnalysis\<close> as a turn of the loop\<close>

lemma create_tools_configured:
  assumes "massive_api_key E = Some key" and "key \<noteq> []"
  shows "create_tools E P = Inr [stock_data_tool E P, news_tool E P, company_details_tool E P]"
  using assms
  by (simp add: create_tools_def createStockDataTool_def createNewsDataTool_def
      createCompanyDetailsTool_def new_MassiveService_def and_then_def)

lemma create_tools_cases:
  "(\<exists>error. (create_tools E P :: js_exn + 'w tool list) = Inl error) \<or>
   (create_tools E P :: js_exn + 'w tool list) =
     Inr [stock_data_tool E P, news_tool E P, company_details_tool E P]"
  by (simp add: create_tools_def createStockDataTool_def createNewsDataTool_def
      createCompanyDetailsTool_def new_MassiveService_def and_then_def split: option.splits)

lemma runStockAnalysis_configured:
  assumes "massive_api_key E = Some key" and "key \<noteq> []"
  shows "runStockAnalysis E P llm input chatHistory w =
     agent_turn llm [stock_data_tool E P, news_tool E P, company_details_tool E P]
       (initial_messages input chatHistory) w"
  by (simp add: runStockAnalysis_def create_tools_configured [OF assms])

lemma runStockAnalysis_cases:
  fixes llm :: "'w model"
  shows "(\<exists>error. runStockAnalysis E P llm input chatHistory w =
      \<lparr> outcome = Inl error, final_messages = [], invocations = 0, model_log = [], world = w \<rparr>) \<or>
   runStockAnalysis E P llm input chatHistory w =
     agent_turn llm [stock_data_tool E P, news_tool E P, company_details_tool E P]
       (initial_messages input chatHistory) w"
  using create_tools_cases [of E P, where ?'w = 'w]
  by (elim disjE exE) (simp_all add: runStockAnalysis_def)

lemma history_message_cases:
  "(\<exists>text. history_message msg = HumanMessage text) \<or>
   (\<exists>text. history_message msg = AIMessage text [])"
  by (cases msg) (simp add: history_message_def)

lemma history_results:
  "tool_result_ids (map history_message chatHistory @ rest) = tool_result_ids rest"
proof (induction chatHistory)
  case Nil
  show ?case by simp
next
  case (Cons msg chatHistory)
  then show ?case using history_message_cases [of msg] by auto
qed

lemma history_requests:
  "requested_ids (map history_message chatHistory @ rest) = requested_ids rest"
proof (induction chatHistory)
  case Nil
  show ?case by simp
next
  case (Cons msg chatHistory)
  then show ?case using history_message_cases [of msg] by (auto simp: map_filter_simps)
qed

lemma history_tagged:
  "results_tagged seen (map history_message chatHistory @ rest) = results_tagged seen rest"
proof (induction chatHistory)
  case Nil
  show ?case by simp
next
  case (Cons msg chatHistory)
  then show ?case using history_message_cases [of msg] by (auto simp: map_filter_simps)
qed

lemma history_requested:
  "results_requested seen (map history_message chatHistory @ rest) = results_requested seen rest"
proof (induction chatHistory)
  case Nil
  show ?case by simp
next
  case (Cons msg chatHistory)
  then show ?case using history_message_cases [of msg] by (auto simp: map_filter_simps)
qed

lemmas history_messages_plain = history_results history_requests history_tagged history_requested

lemma initial_messages_plain:
  "tool_result_ids (initial_messages input chatHistory) = []"
  "requested_ids (initial_messages input chatHistory) = []"
  "results_tagged [] (initial_messages input chatHistory)"
  "results_requested [] (initial_messages input chatHistory)"
  by (simp_all add: initial_messages_def history_messages_plain)

text \<open>
  C2. In every run each tool result carries an identifier that an invocation requested
  by an assistant message before it carries; it is the identifier of exactly one such
  invocation when the call identifiers that the assistant messages of the sequence
  request are pairwise distinct, which the loop takes from the model and does not
  check. The identifiers of the tool results of the whole sequence are, model
  invocation after model invocation, the identifiers of the invocations that were run,
  in the order the model emitted them; and any single tool-execution phase only appends
  tool results, one per invocation it runs, in the order of the request.
\<close>

theorem tool_results_match_requests:
  fixes llm :: "'w model" and tools :: "'w tool list"
  assumes R: "R = runStockAnalysis E P llm input chatHistory w"
  shows "results_requested [] (final_messages R) \<and>
     (distinct (requested_ids (final_messages R)) \<longrightarrow> results_tagged [] (final_messages R)) \<and>
     tool_result_ids (final_messages R) =
       concat (map (executed_ids
          ([stock_data_tool E P, news_tool E P, company_details_tool E P] :: 'w tool list))
          (model_log R)) \<and>
     (\<exists>new. fst (execute_tool_calls tools calls messages w0) = messages @ new \<and>
        list_all is_tool_message new \<and>
        tool_result_ids new = List.map_filter tc_id (filter (runnable tools) calls))"
proof -
  let ?tools = "[stock_data_tool E P, news_tool E P, company_details_tool E P] :: 'w tool list"
  let ?L = "agent_loop llm ?tools 0 (initial_messages input chatHistory) [] w"
  have zero: "results_requested [] (final_messages R)"
    using runStockAnalysis_cases [of E P llm input chatHistory w]
  proof (elim disjE exE)
    fix error
    assume "runStockAnalysis E P llm input chatHistory w =
      \<lparr> outcome = Inl error, final_messages = [], invocations = 0, model_log = [], world = w \<rparr>"
    then show ?thesis by (simp add: R)
  next
    assume a: "runStockAnalysis E P llm input chatHistory w =
      agent_turn llm ?tools (initial_messages input chatHistory) w"
    then have f: "final_messages R = final_messages ?L" by (simp add: R agent_turn_fields)
    show ?thesis
      using agent_loop_requested [of "initial_messages input chatHistory" llm ?tools 0 "[]" w]
      by (simp add: f initial_messages_plain)
  qed
  have one: "results_tagged [] (final_messages R)" if d: "distinct (requested_ids (final_messages R))"
    using runStockAnalysis_cases [of E P llm input chatHistory w]
  proof (elim disjE exE)
    fix error
    assume "runStockAnalysis E P llm input chatHistory w =
      \<lparr> outcome = Inl error, final_messages = [], invocations = 0, model_log = [], world = w \<rparr>"
    then show ?thesis by (simp add: R)
  next
    assume a: "runStockAnalysis E P llm input chatHistory w =
      agent_turn llm ?tools (initial_messages input chatHistory) w"
    then have f: "final_messages R = final_messages ?L" by (simp add: R agent_turn_fields)
    show ?thesis
      using agent_loop_tagged [of "initial_messages input chatHistory" llm ?tools 0 "[]" w] d
      by (simp add: f initial_messages_plain)
  qed
  have two: "tool_result_ids (final_messages R) = concat (map (executed_ids ?tools) (model_log R))"
    using runStockAnalysis_cases [of E P llm input chatHistory w]
  proof (elim disjE exE)
    fix error
    assume "runStockAnalysis E P llm input chatHistory w =
      \<lparr> outcome = Inl error, final_messages = [], invocations = 0, model_log = [], world = w \<rparr>"
    then show ?thesis by (simp add: R)
  next
    assume a: "runStockAnalysis E P llm input chatHistory w =
      agent_turn llm ?tools (initial_messages input chatHistory) w"
    then have f: "final_messages R = final_messages ?L" "model_log R = model_log ?L"
      by (simp_all add: R agent_turn_fields)
    show ?thesis
      using agent_loop_result_ids [of "initial_messages input chatHistory" ?tools "[]" llm 0 w]
      by (simp add: f initial_messages_plain)
  qed
  show ?thesis using zero one two execute_appends [of tools calls messages w0] by blast
qed

text \<open>
  The claim as first stated has every identifier match exactly one request. The loop
  copies the identifiers from the model's response: when a response gives one
  identifier to two invocations, both are run, the turn ends with the answer, and each
  of the two tool results carries an identifier that two requests carry.
\<close>

theorem duplicate_call_ids_counterexample:
  "outcome (runStockAnalysis test_env scenario_provider duplicate_ids_then_answer ''Regarding AAPL: news?'' [] 0)
     = Inr ''AAPL is steady.'' \<and>
   requested_ids (final_messages
      (runStockAnalysis test_env scenario_provider duplicate_ids_then_answer ''Regarding AAPL: news?'' [] 0))
     = [''dup'', ''dup''] \<and>
   tool_result_ids (final_messages
      (runStockAnalysis test_env scenario_provider duplicate_ids_then_answer ''Regarding AAPL: news?'' [] 0))
     = [''dup'', ''dup''] \<and>
   \<not> results_tagged [] (final_messages
      (runStockAnalysis test_env scenario_provider duplicate_ids_then_answer ''Regarding AAPL: news?'' [] 0))"
  by code_simp

theorem tool_results_match_requests_witness:
  "distinct (requested_ids (final_messages
      (runStockAnalysis test_env scenario_provider always_requests ''Regarding AAPL: news?'' [] 0))) \<and>
   results_tagged [] (final_messages
      (runStockAnalysis test_env scenario_provider always_requests ''Regarding AAPL: news?'' [] 0)) \<and>
   tool_result_ids (final_messages
      (runStockAnalysis test_env scenario_provider always_requests ''Regarding AAPL: news?'' [] 0))
     = [''call_0'', ''call_1'', ''call_2'', ''call_3'', ''call_4''] \<and>
   results_requested [] (final_messages
      (runStockAnalysis test_env scenario_provider duplicate_ids_then_answer ''Regarding AAPL: news?'' [] 0))"
proof -
  let ?R = "runStockAnalysis test_env scenario_provider always_requests ''Regarding AAPL: news?'' [] 0"
  let ?D = "runStockAnalysis test_env scenario_provider duplicate_ids_then_answer ''Regarding AAPL: news?'' [] 0"
  have d: "distinct (requested_ids (final_messages ?R))" by code_simp
  have i: "tool_result_ids (final_messages ?R) = [''call_0'', ''call_1'', ''call_2'', ''call_3'', ''call_4'']"
    by code_simp
  note t = tool_results_match_requests [OF refl, of test_env scenario_provider always_requests
      "''Regarding AAPL: news?''" "[]" 0]
  note u = tool_results_match_requests [OF refl, of test_env scenario_provider duplicate_ids_then_answer
      "''Regarding AAPL: news?''" "[]" 0]
  have r: "results_tagged [] (final_messages ?R)"
    using t [THEN conjunct2, THEN conjunct1] d by (rule mp)
  have q: "results_requested [] (final_messages ?D)"
    using u by (rule conjunct1)
  show ?thesis using d r i q by (intro conjI)
qed

subsection \<open>A turn with one tool call\<close>

lemma one_call_then_answer:
  fixes llm :: "'w model"
  assumes first: "llm messages w = (Inr r1, w1)" "toolCalls_of r1 = [c]"
    and tool: "find (\<lambda>t. tool_name t = tc_name c) tools = Some tool"
      "tc_id c = Some call_id" "call_id \<noteq> []"
      "invoke_tool tool c call_id w1 = (pushed, w2)"
    and second: "llm (messages @ [AIMessage (content r1) [c], pushed]) w2 = (Inr r2, w3)"
      "toolCalls_of r2 = []"
  shows "agent_turn llm tools messages w =
     \<lparr> outcome = Inr (content r2),
       final_messages = messages @ [AIMessage (content r1) [c], pushed],
       invocations = 2, model_log = [Inr r1, Inr r2], world = w3 \<rparr>"
proof -
  have ex: "execute_tool_calls tools (toolCalls_of r1)
      (messages @ [AIMessage (content r1) (toolCalls_of r1)]) w1 =
      (messages @ [AIMessage (content r1) [c], pushed], w2)"
    using first(2) tool by (simp add: execute_Cons tool_step_def)
  have ne: "toolCalls_of r1 \<noteq> []" using first(2) by simp
  have lt: "0 < maxIterations" "0 + 1 < maxIterations" by (simp_all add: maxIterations_def)
  have "agent_loop llm tools 0 messages [] w =
      agent_loop llm tools (0 + 1) (messages @ [AIMessage (content r1) [c], pushed]) ([] @ [Inr r1]) w2"
    using lt(1) first(1) ne ex by (rule agent_loop_tools)
  also have "\<dots> = \<lparr> outcome = Inr (content r2),
       final_messages = messages @ [AIMessage (content r1) [c], pushed],
       invocations = 0 + 1 + 1, model_log = ([] @ [Inr r1]) @ [Inr r2], world = w3 \<rparr>"
    using lt(2) second by (rule agent_loop_answer)
  finally show ?thesis by (simp add: agent_turn_def try_catch_def)
qed

lemma find_registered:
  "find (\<lambda>t. tool_name t = ''get_stock_data'')
     [stock_data_tool E P, news_tool E P, company_details_tool E P] = Some (stock_data_tool E P)"
  "find (\<lambda>t. tool_name t = ''get_stock_news'')
     [stock_data_tool E P, news_tool E P, company_details_tool E P] = Some (news_tool E P)"
  "find (\<lambda>t. tool_name t = ''get_company_details'')
     [stock_data_tool E P, news_tool E P, company_details_tool E P] = Some (company_details_tool E P)"
  by (simp_all add: stock_data_tool_def news_tool_def company_details_tool_def)

lemma invoke_registered:
  "get_stock_data E P (tc_args c) = Inr out \<Longrightarrow>
     invoke_tool (stock_data_tool E P) c call_id w = (ToolMessage out call_id, w)"
  "get_stock_news E P (tc_args c) = Inr out \<Longrightarrow>
     invoke_tool (news_tool E P) c call_id w = (ToolMessage out call_id, w)"
  "get_company_details E P (tc_args c) = Inr out \<Longrightarrow>
     invoke_tool (company_details_tool E P) c call_id w = (ToolMessage out call_id, w)"
  by (simp_all add: invoke_tool_def stock_data_tool_def news_tool_def company_details_tool_def)

text \<open>
  C3 (as amended). Given a model whose first response requests exactly one tool
  invocation, of the news tool and with a call identifier, and whose second response
  requests none, the loop invokes the model twice with one tool-execution phase in
  between and returns the second response's text. The message sequence at the end is
  the initial sequence followed by the assistant's request and the tool result: its
  length is the initial length plus 2. The final answer is returned to the caller and
  is not appended to the sequence.
\<close>

theorem single_news_request:
  fixes llm :: "'w model"
  assumes configured: "massive_api_key E = Some key" "key \<noteq> []"
    and first: "llm (initial_messages input chatHistory) w = (Inr r1, w1)" "toolCalls_of r1 = [c]"
    and news: "tc_name c = ''get_stock_news''" "tc_id c = Some call_id" "call_id \<noteq> []"
      "get_stock_news E P (tc_args c) = Inr out"
    and second:
      "llm (initial_messages input chatHistory @ [AIMessage (content r1) [c], ToolMessage out call_id]) w1
         = (Inr r2, w2)"
      "toolCalls_of r2 = []"
    and R: "R = runStockAnalysis E P llm input chatHistory w"
  shows "outcome R = Inr (content r2) \<and> invocations R = 2 \<and>
     final_messages R =
       initial_messages input chatHistory @ [AIMessage (content r1) [c], ToolMessage out call_id] \<and>
     length (final_messages R) = length (initial_messages input chatHistory) + 2"
proof -
  have f: "find (\<lambda>t. tool_name t = tc_name c)
      ([stock_data_tool E P, news_tool E P, company_details_tool E P] :: 'w tool list)
      = Some (news_tool E P)"
    unfolding news(1) by (rule find_registered)
  have i: "invoke_tool (news_tool E P) c call_id w1 = (ToolMessage out call_id, w1)"
    using news(4) by (rule invoke_registered)
  show ?thesis
    unfolding R runStockAnalysis_configured [OF configured]
    by (simp add: one_call_then_answer [OF first f news(2) news(3) i second])
qed

theorem single_news_request_witness:
  "outcome (runStockAnalysis test_env scenario_provider news_then_answer ''Regarding AAPL: news?'' [] 0)
     = Inr ''AAPL is steady.'' \<and>
   invocations (runStockAnalysis test_env scenario_provider news_then_answer ''Regarding AAPL: news?'' [] 0)
     = 2 \<and>
   final_messages (runStockAnalysis test_env scenario_provider news_then_answer ''Regarding AAPL: news?'' [] 0)
     = initial_messages ''Regarding AAPL: news?'' [] @
       [AIMessage [] [call ''get_stock_news'' ''call_1''],
        ToolMessage (Text ''No recent news for AAPL'') ''call_1''] \<and>
   length (final_messages
     (runStockAnalysis test_env scenario_provider news_then_answer ''Regarding AAPL: news?'' [] 0))
     = length (initial_messages ''Regarding AAPL: news?'' []) + 2"
proof -
  let ?r1 = "\<lparr> content = [], tool_calls = Some [call ''get_stock_news'' ''call_1''] \<rparr>"
  let ?r2 = "\<lparr> content = ''AAPL is steady.'', tool_calls = Some [] \<rparr>"
  let ?c = "call ''get_stock_news'' ''call_1''"
  let ?init = "initial_messages ''Regarding AAPL: news?'' []"
  have k: "massive_api_key test_env = Some ''key''" "''key'' \<noteq> []" by (simp_all add: test_env_def)
  have a: "news_then_answer ?init 0 = (Inr ?r1, 1)"
    by (simp add: news_then_answer_def scripted_def)
  have b: "toolCalls_of ?r1 = [?c]" by (simp add: toolCalls_of_def)
  have c: "tc_name ?c = ''get_stock_news''" "tc_id ?c = Some ''call_1''" "''call_1'' \<noteq> []"
    by (simp_all add: call_def)
  have d: "get_stock_news test_env scenario_provider (tc_args ?c) = Inr (Text ''No recent news for AAPL'')"
    by code_simp
  have e: "news_then_answer (?init @ [AIMessage (content ?r1) [?c],
      ToolMessage (Text ''No recent news for AAPL'') ''call_1'']) 1 = (Inr ?r2, 2)"
    by (simp add: news_then_answer_def scripted_def)
  have g: "toolCalls_of ?r2 = []" by (simp add: toolCalls_of_def)
  from single_news_request [OF k a b c d e g refl]
  show ?thesis by simp
qed

text \<open>
  The claim as first stated gives the final length as the initial length plus 3. On the
  scripted model that asks for the news tool once and then answers, it is not.
\<close>

theorem final_answer_not_appended_counterexample:
  "toolCalls_of \<lparr> content = [], tool_calls = Some [call ''get_stock_news'' ''call_1''] \<rparr>
     = [call ''get_stock_news'' ''call_1''] \<and>
   toolCalls_of \<lparr> content = ''AAPL is steady.'', tool_calls = Some [] \<rparr> = [] \<and>
   outcome (runStockAnalysis test_env scenario_provider news_then_answer ''Regarding AAPL: news?'' [] 0)
     = Inr ''AAPL is steady.'' \<and>
   length (final_messages
     (runStockAnalysis test_env scenario_provider news_then_answer ''Regarding AAPL: news?'' [] 0))
     \<noteq> length (initial_messages ''Regarding AAPL: news?'' []) + 3"
  by code_simp

subsection \<open>Failures below the adapters\<close>

lemma adapter_catches:
  "get_stock_data_body E P args = Inl error \<Longrightarrow>
     get_stock_data E P args =
       Inr (Text (''Error fetching stock data for '' @ interpolate (arg_ticker args) @ '': ''
                  @ error_message ''Unknown error'' error))"
  "get_stock_news_body E P args = Inl error \<Longrightarrow>
     get_stock_news E P args =
       Inr (Text (''Error fetching news for '' @ interpolate (arg_ticker args) @ '': ''
                  @ error_message ''Unknown error'' error))"
  "get_company_details_body E P args = Inl error \<Longrightarrow>
     get_company_details E P args =
       Inr (Text (''Error fetching company details for '' @ interpolate (arg_ticker args) @ '': ''
                  @ error_message ''Unknown error'' error))"
  by (simp_all add: get_stock_data_def get_stock_news_def get_company_details_def try_catch_def)

lemma always_fails_adapters:
  assumes "always_fails P" and "arg_ticker args = Some ticker"
  shows "\<exists>error. get_stock_data E P args =
       Inr (Text (''Error fetching stock data for '' @ ticker @ '': ''
                  @ error_message ''Unknown error'' error))"
    and "get_stock_news E P args = Inr (Text (''No recent news for '' @ ticker))"
    and "get_company_details E P args = Inr (Text (''No company details found for '' @ ticker))"
proof -
  obtain e1 where "fetchAPI (http_aggs P (toUpperCase E ticker) 30) = Inl e1"
    using assms(1) unfolding always_fails_def by blast
  then have "getStockAggregates P (toUpperCase E ticker) 30 = Inl e1"
    by (rule getStockAggregates_failed)
  from get_stock_data_failed [OF assms(2) this]
  show "\<exists>error. get_stock_data E P args =
       Inr (Text (''Error fetching stock data for '' @ ticker @ '': ''
                  @ error_message ''Unknown error'' error))" by blast
  obtain e2 where "fetchAPI (http_news P (toUpperCase E ticker)
      (case arg_limit args of None \<Rightarrow> 5 | Some k \<Rightarrow> k)) = Inl e2"
    using assms(1) unfolding always_fails_def by blast
  then have "getNews P (toUpperCase E ticker) (case arg_limit args of None \<Rightarrow> 5 | Some k \<Rightarrow> k) = Inr []"
    by (rule getNews_failed)
  from get_stock_news_empty [OF assms(2) this]
  show "get_stock_news E P args = Inr (Text (''No recent news for '' @ ticker))" .
  obtain e3 where "fetchAPI (http_details P (toUpperCase E ticker)) = Inl e3"
    using assms(1) unfolding always_fails_def by blast
  then have "getTickerDetails P (toUpperCase E ticker) = Inr None"
    by (rule getTickerDetails_failed)
  from get_company_details_absent [OF assms(2) this]
  show "get_company_details E P args = Inr (Text (''No company details found for '' @ ticker))" .
qed

lemma responded_turn:
  fixes llm :: "'w model"
  assumes R: "R = agent_turn llm tools messages w" and ok: "list_all responded (model_log R)"
  shows "(\<exists>answer. outcome R = Inr answer) \<or>
     (outcome R = Inl (JsError ''Failed to analyze: Max iterations reached'') \<and> invocations R = 5)"
  using agent_turn_cases [OF R] ok by (auto simp: responded_def maxIterations_def)

text \<open>
  C4. Whatever the provider answers, none of the three adapters throws: each returns a
  string. An error raised inside an adapter's \<^verbatim>\<open>try\<close> block comes back as the text
  "Error fetching ... for <ticker>: <message>". With a gateway that fails on every call
  the stock data adapter returns that error text, and the news and company details
  adapters, whose gateway methods have already turned the failure into an empty result,
  return their "No recent news" and "No company details found" texts. A turn does not
  abort because of a tool: whatever the tools do, even throw, a turn in which every model
  invocation returns a response ends with a final answer or at the iteration cap.
\<close>

theorem adapters_never_throw:
  fixes llm :: "'w model"
  shows "(\<exists>out. get_stock_data E P args = Inr out) \<and>
     (\<exists>out. get_stock_news E P args = Inr out) \<and>
     (\<exists>out. get_company_details E P args = Inr out) \<and>
     (get_stock_data_body E P args = Inl error \<longrightarrow>
        get_stock_data E P args =
          Inr (Text (''Error fetching stock data for '' @ interpolate (arg_ticker args) @ '': ''
                     @ error_message ''Unknown error'' error))) \<and>
     (get_stock_news_body E P args = Inl error \<longrightarrow>
        get_stock_news E P args =
          Inr (Text (''Error fetching news for '' @ interpolate (arg_ticker args) @ '': ''
                     @ error_message ''Unknown error'' error))) \<and>
     (get_company_details_body E P args = Inl error \<longrightarrow>
        get_company_details E P args =
          Inr (Text (''Error fetching company details for '' @ interpolate (arg_ticker args) @ '': ''
                     @ error_message ''Unknown error'' error))) \<and>
     (always_fails P \<and> arg_ticker args = Some ticker \<longrightarrow>
        (\<exists>failure. get_stock_data E P args =
           Inr (Text (''Error fetching stock data for '' @ ticker @ '': ''
                      @ error_message ''Unknown error'' failure))) \<and>
        get_stock_news E P args = Inr (Text (''No recent news for '' @ ticker)) \<and>
        get_company_details E P args = Inr (Text (''No company details found for '' @ ticker))) \<and>
     (R = agent_turn llm tools messages w \<and> list_all responded (model_log R) \<longrightarrow>
        (\<exists>answer. outcome R = Inr answer) \<or>
        (outcome R = Inl (JsError ''Failed to analyze: Max iterations reached'') \<and>
         invocations R = 5)) \<and>
     (massive_api_key E = Some key \<and> key \<noteq> [] \<and>
      R' = runStockAnalysis E P llm input chatHistory w \<and> list_all responded (model_log R') \<longrightarrow>
        (\<exists>answer. outcome R' = Inr answer) \<or>
        (outcome R' = Inl (JsError ''Failed to analyze: Max iterations reached'') \<and>
         invocations R' = 5))"
proof -
  have run: "(\<exists>answer. outcome R' = Inr answer) \<or>
        (outcome R' = Inl (JsError ''Failed to analyze: Max iterations reached'') \<and>
         invocations R' = 5)"
    if "massive_api_key E = Some key" "key \<noteq> []"
      "R' = runStockAnalysis E P llm input chatHistory w" "list_all responded (model_log R')"
    using responded_turn [of R' llm "[stock_data_tool E P, news_tool E P, company_details_tool E P]"
        "initial_messages input chatHistory" w]
      that runStockAnalysis_configured [OF that(1) that(2), of P llm input chatHistory w]
    by simp
  show ?thesis
  proof (intro conjI impI)
    show "\<exists>out. get_stock_data E P args = Inr out" by (rule get_stock_data_total)
    show "\<exists>out. get_stock_news E P args = Inr out" by (rule get_stock_news_total)
    show "\<exists>out. get_company_details E P args = Inr out" by (rule get_company_details_total)
    show "get_stock_data E P args =
          Inr (Text (''Error fetching stock data for '' @ interpolate (arg_ticker args) @ '': ''
                     @ error_message ''Unknown error'' error))"
      if "get_stock_data_body E P args = Inl error"
      using that by (rule adapter_catches)
    show "get_stock_news E P args =
          Inr (Text (''Error fetching news for '' @ interpolate (arg_ticker args) @ '': ''
                     @ error_message ''Unknown error'' error))"
      if "get_stock_news_body E P args = Inl error"
      using that by (rule adapter_catches)
    show "get_company_details E P args =
          Inr (Text (''Error fetching company details for '' @ interpolate (arg_ticker args) @ '': ''
                     @ error_message ''Unknown error'' error))"
      if "get_company_details_body E P args = Inl error"
      using that by (rule adapter_catches)
    show "\<exists>failure. get_stock_data E P args =
           Inr (Text (''Error fetching stock data for '' @ ticker @ '': ''
                      @ error_message ''Unknown error'' failure))"
      if "always_fails P \<and> arg_ticker args = Some ticker"
      using that always_fails_adapters(1) [of P args ticker E] by (elim conjE)
    show "get_stock_news E P args = Inr (Text (''No recent news for '' @ ticker))"
      if "always_fails P \<and> arg_ticker args = Some ticker"
      using that always_fails_adapters(2) [of P args ticker E] by (elim conjE)
    show "get_company_details E P args = Inr (Text (''No company details found for '' @ ticker))"
      if "always_fails P \<and> arg_ticker args = Some ticker"
      using that always_fails_adapters(3) [of P args ticker] by (elim conjE)
    show "(\<exists>answer. outcome R = Inr answer) \<or>
        (outcome R = Inl (JsError ''Failed to analyze: Max iterations reached'') \<and>
         invocations R = 5)"
      if "R = agent_turn llm tools messages w \<and> list_all responded (model_log R)"
      using that responded_turn [of R llm tools messages w] by (elim conjE)
    show "(\<exists>answer. outcome R' = Inr answer) \<or>
        (outcome R' = Inl (JsError ''Failed to analyze: Max iterations reached'') \<and>
         invocations R' = 5)"
      if "massive_api_key E = Some key \<and> key \<noteq> [] \<and>
      R' = runStockAnalysis E P llm input chatHistory w \<and> list_all responded (model_log R')"
      using that run by (elim conjE)
  qed
qed

text \<open>
  The claim as first stated has every adapter return a textual error description when
  the gateway fails on every call. The news and company details adapters do not: the
  gateway methods \<^verbatim>\<open>getNews\<close> and \<^verbatim>\<open>getTickerDetails\<close> catch the failure and return an
  empty result, and the adapters answer with the texts they give on a provider that
  works and has nothing to report.
\<close>

theorem failing_gateway_counterexample:
  "always_fails failing_provider \<and>
   get_stock_news test_env failing_provider (ticker_args ''AAPL'') =
     Inr (Text ''No recent news for AAPL'') \<and>
   get_stock_news test_env scenario_provider (ticker_args ''AAPL'') =
     Inr (Text ''No recent news for AAPL'') \<and>
   \<not> is_error_text (Text ''No recent news for AAPL'') \<and>
   get_company_details test_env failing_provider (ticker_args ''AAPL'') =
     Inr (Text ''No company details found for AAPL'') \<and>
   get_company_details test_env scenario_provider (ticker_args ''AAPL'') =
     Inr (Text ''No company details found for AAPL'') \<and>
   \<not> is_error_text (Text ''No company details found for AAPL'') \<and>
   get_stock_data test_env failing_provider (ticker_args ''AAPL'') =
     Inr (Text ''Error fetching stock data for AAPL: Massive API failed: 500 Internal Server Error'') \<and>
   is_error_text (Text ''Error fetching stock data for AAPL: Massive API failed: 500 Internal Server Error'')"
proof (intro conjI)
  show "always_fails failing_provider"
    by (simp add: always_fails_def failing_provider_def fetchAPI_def response_ok_def)
qed code_simp+

theorem adapters_never_throw_witness:
  "always_fails failing_provider \<and>
   arg_ticker (ticker_args ''AAPL'') = Some ''AAPL'' \<and>
   get_stock_data test_env failing_provider (ticker_args ''AAPL'') =
     Inr (Text ''Error fetching stock data for AAPL: Massive API failed: 500 Internal Server Error'') \<and>
   get_stock_news test_env failing_provider (ticker_args ''AAPL'') =
     Inr (Text ''No recent news for AAPL'') \<and>
   get_company_details test_env failing_provider (ticker_args ''AAPL'') =
     Inr (Text ''No company details found for AAPL'') \<and>
   get_stock_news_body test_env failing_provider \<lparr> arg_ticker = None, arg_limit = None \<rparr> =
     Inl (JsError ''Cannot read properties of undefined (reading 'toUpperCase')'') \<and>
   get_stock_news test_env failing_provider \<lparr> arg_ticker = None, arg_limit = None \<rparr> =
     Inr (Text ''Error fetching news for undefined: Cannot read properties of undefined (reading 'toUpperCase')'') \<and>
   massive_api_key test_env = Some ''key'' \<and>
   list_all responded
     (model_log (runStockAnalysis test_env failing_provider stock_then_answer ''Regarding AAPL: price?'' [] 0)) \<and>
   outcome (runStockAnalysis test_env failing_provider stock_then_answer ''Regarding AAPL: price?'' [] 0)
     = Inr ''AAPL is steady.''"
proof -
  have f: "always_fails failing_provider"
    by (simp add: always_fails_def failing_provider_def fetchAPI_def response_ok_def)
  have a: "arg_ticker (ticker_args ''AAPL'') = Some ''AAPL''" by (simp add: ticker_args_def)
  have s: "get_stock_data test_env failing_provider (ticker_args ''AAPL'') =
     Inr (Text ''Error fetching stock data for AAPL: Massive API failed: 500 Internal Server Error'')"
    by code_simp
  have b: "get_stock_news_body test_env failing_provider \<lparr> arg_ticker = None, arg_limit = None \<rparr> =
     Inl (JsError ''Cannot read properties of undefined (reading 'toUpperCase')'')"
    by (simp add: get_stock_news_body_def toUpperCase_of_def and_then_def)
  have l: "list_all responded
     (model_log (runStockAnalysis test_env failing_provider stock_then_answer ''Regarding AAPL: price?'' [] 0))"
    by code_simp
  have o: "outcome (runStockAnalysis test_env failing_provider stock_then_answer ''Regarding AAPL: price?'' [] 0)
     = Inr ''AAPL is steady.''"
    by code_simp
  note t = adapters_never_throw [where P = failing_provider and E = test_env and ticker = "''AAPL''"]
  note t7 = t [where args = "ticker_args ''AAPL''", THEN conjunct2, THEN conjunct2, THEN conjunct2,
      THEN conjunct2, THEN conjunct2, THEN conjunct2, THEN conjunct1, rule_format, OF conjI [OF f a]]
  have n: "get_stock_news test_env failing_provider (ticker_args ''AAPL'') =
     Inr (Text ''No recent news for AAPL'')"
    using t7 [THEN conjunct2, THEN conjunct1] by simp
  have c: "get_company_details test_env failing_provider (ticker_args ''AAPL'') =
     Inr (Text ''No company details found for AAPL'')"
    using t7 [THEN conjunct2, THEN conjunct2] by simp
  note t5 = t [where args = "\<lparr> arg_ticker = None, arg_limit = None \<rparr>",
      THEN conjunct2, THEN conjunct2, THEN conjunct2, THEN conjunct2, THEN conjunct1, rule_format, OF b]
  have u: "get_stock_news test_env failing_provider \<lparr> arg_ticker = None, arg_limit = None \<rparr> =
     Inr (Text ''Error fetching news for undefined: Cannot read properties of undefined (reading 'toUpperCase')'')"
    using t5 by (simp add: interpolate_def error_message_def)
  have k: "massive_api_key test_env = Some ''key''" by (simp add: test_env_def)
  show ?thesis using f a s n c b u k l o by (intro conjI)
qed

text \<open>
  C5 (as amended). When the 30-day aggregates request fails, by a non-success status or
  by an empty result set, the stock data adapter catches the error and returns the text
  "Error fetching stock data for <ticker>: <message>". The loop pushes it as the tool
  result and goes on, so the failure is not surfaced as a failure of the turn: if the
  model then answers, the caller receives that answer.
\<close>

theorem aggregates_failure_absorbed:
  fixes llm :: "'w model"
  assumes failed: "getStockAggregates P (toUpperCase E ticker) 30 = Inl error"
    and args: "arg_ticker (tc_args c) = Some ticker"
  shows "get_stock_data E P (tc_args c) =
       Inr (Text (''Error fetching stock data for '' @ ticker @ '': ''
                  @ error_message ''Unknown error'' error)) \<and>
     (massive_api_key E = Some key \<and> key \<noteq> [] \<and>
      llm (initial_messages input chatHistory) w = (Inr r1, w1) \<and> toolCalls_of r1 = [c] \<and>
      tc_name c = ''get_stock_data'' \<and> tc_id c = Some call_id \<and> call_id \<noteq> [] \<and>
      llm (initial_messages input chatHistory @
           [AIMessage (content r1) [c],
            ToolMessage (Text (''Error fetching stock data for '' @ ticker @ '': ''
                               @ error_message ''Unknown error'' error)) call_id]) w1
        = (Inr r2, w2) \<and>
      toolCalls_of r2 = [] \<longrightarrow>
        outcome (runStockAnalysis E P llm input chatHistory w) = Inr (content r2) \<and>
        final_messages (runStockAnalysis E P llm input chatHistory w) =
          initial_messages input chatHistory @
           [AIMessage (content r1) [c],
            ToolMessage (Text (''Error fetching stock data for '' @ ticker @ '': ''
                               @ error_message ''Unknown error'' error)) call_id])"
proof -
  let ?out = "Text (''Error fetching stock data for '' @ ticker @ '': ''
                  @ error_message ''Unknown error'' error)"
  have out: "get_stock_data E P (tc_args c) = Inr ?out"
    using args failed by (rule get_stock_data_failed)
  have turn: "outcome (runStockAnalysis E P llm input chatHistory w) = Inr (content r2) \<and>
        final_messages (runStockAnalysis E P llm input chatHistory w) =
          initial_messages input chatHistory @ [AIMessage (content r1) [c], ToolMessage ?out call_id]"
    if configured: "massive_api_key E = Some key" "key \<noteq> []"
      and first: "llm (initial_messages input chatHistory) w = (Inr r1, w1)" "toolCalls_of r1 = [c]"
      and stock: "tc_name c = ''get_stock_data''" "tc_id c = Some call_id" "call_id \<noteq> []"
      and second: "llm (initial_messages input chatHistory @
           [AIMessage (content r1) [c], ToolMessage ?out call_id]) w1 = (Inr r2, w2)"
        "toolCalls_of r2 = []"
  proof -
    have f: "find (\<lambda>t. tool_name t = tc_name c)
        ([stock_data_tool E P, news_tool E P, company_details_tool E P] :: 'w tool list)
        = Some (stock_data_tool E P)"
      unfolding stock(1) by (rule find_registered)
    have i: "invoke_tool (stock_data_tool E P) c call_id w1 = (ToolMessage ?out call_id, w1)"
      using out by (rule invoke_registered)
    show ?thesis
      unfolding runStockAnalysis_configured [OF configured]
      by (simp add: one_call_then_answer [OF first f stock(2) stock(3) i second])
  qed
  show ?thesis
  proof (intro conjI impI)
    show "get_stock_data E P (tc_args c) = Inr ?out" by (rule out)
  next
    assume h: "massive_api_key E = Some key \<and> key \<noteq> [] \<and>
      llm (initial_messages input chatHistory) w = (Inr r1, w1) \<and> toolCalls_of r1 = [c] \<and>
      tc_name c = ''get_stock_data'' \<and> tc_id c = Some call_id \<and> call_id \<noteq> [] \<and>
      llm (initial_messages input chatHistory @
           [AIMessage (content r1) [c], ToolMessage ?out call_id]) w1 = (Inr r2, w2) \<and>
      toolCalls_of r2 = []"
    then have t: "outcome (runStockAnalysis E P llm input chatHistory w) = Inr (content r2) \<and>
        final_messages (runStockAnalysis E P llm input chatHistory w) =
          initial_messages input chatHistory @ [AIMessage (content r1) [c], ToolMessage ?out call_id]"
      by (elim conjE) (rule turn)
    show "outcome (runStockAnalysis E P llm input chatHistory w) = Inr (content r2)"
      using t by (rule conjunct1)
    show "final_messages (runStockAnalysis E P llm input chatHistory w) =
        initial_messages input chatHistory @ [AIMessage (content r1) [c], ToolMessage ?out call_id]"
      using t by (rule conjunct2)
  qed
qed

text \<open>
  The claim as first stated has the failure of the aggregates request fail the whole
  turn. With a provider that answers 500, and with one that returns no bars, the request
  fails and both \<^verbatim>\<open>runStockAnalysis\<close> and the router's \<^verbatim>\<open>analyze\<close> return an analysis.
\<close>

theorem aggregates_failure_counterexample:
  "getStockAggregates failing_provider ''AAPL'' 30 =
     Inl (JsError ''Massive API failed: 500 Internal Server Error'') \<and>
   outcome (runStockAnalysis test_env failing_provider stock_then_answer (analyze_prompt ''AAPL'') [] 0)
     = Inr ''AAPL is steady.'' \<and>
   analyze test_env failing_provider stock_then_answer ''AAPL'' 0 = Inr ''AAPL is steady.'' \<and>
   getStockAggregates no_data_provider ''AAPL'' 30 =
     Inl (JsError ''No stock data available for AAPL'') \<and>
   outcome (runStockAnalysis test_env no_data_provider stock_then_answer (analyze_prompt ''AAPL'') [] 0)
     = Inr ''AAPL is steady.'' \<and>
   analyze test_env no_data_provider stock_then_answer ''AAPL'' 0 = Inr ''AAPL is steady.''"
  by code_simp

theorem aggregates_failure_absorbed_witness:
  "getStockAggregates failing_provider (toUpperCase test_env ''AAPL'') 30 =
     Inl (JsError ''Massive API failed: 500 Internal Server Error'') \<and>
   arg_ticker (tc_args (call ''get_stock_data'' ''call_1'')) = Some ''AAPL'' \<and>
   get_stock_data test_env failing_provider (tc_args (call ''get_stock_data'' ''call_1'')) =
     Inr (Text ''Error fetching stock data for AAPL: Massive API failed: 500 Internal Server Error'') \<and>
   outcome (runStockAnalysis test_env failing_provider stock_then_answer ''Regarding AAPL: price?'' [] 0)
     = Inr ''AAPL is steady.''"
proof -
  let ?c = "call ''get_stock_data'' ''call_1''"
  let ?e = "JsError ''Massive API failed: 500 Internal Server Error''"
  let ?r1 = "\<lparr> content = [], tool_calls = Some [?c] \<rparr>"
  let ?r2 = "\<lparr> content = ''AAPL is steady.'', tool_calls = None \<rparr>"
  let ?init = "initial_messages ''Regarding AAPL: price?'' []"
  have g: "getStockAggregates failing_provider (toUpperCase test_env ''AAPL'') 30 = Inl ?e"
    by code_simp
  have a: "arg_ticker (tc_args ?c) = Some ''AAPL''" by (simp add: call_def ticker_args_def)
  note t = aggregates_failure_absorbed [OF g a, where llm = stock_then_answer
      and key = "''key''" and input = "''Regarding AAPL: price?''" and chatHistory = "[]" and w = 0
      and ?r1.0 = ?r1 and ?w1.0 = 1 and call_id = "''call_1''" and ?r2.0 = ?r2 and ?w2.0 = 2]
  have h: "massive_api_key test_env = Some ''key'' \<and> ''key'' \<noteq> [] \<and>
      stock_then_answer ?init 0 = (Inr ?r1, 1) \<and> toolCalls_of ?r1 = [?c] \<and>
      tc_name ?c = ''get_stock_data'' \<and> tc_id ?c = Some ''call_1'' \<and> ''call_1'' \<noteq> [] \<and>
      stock_then_answer (?init @
           [AIMessage (content ?r1) [?c],
            ToolMessage (Text (''Error fetching stock data for '' @ ''AAPL'' @ '': ''
                               @ error_message ''Unknown error'' ?e)) ''call_1'']) 1
        = (Inr ?r2, 2) \<and>
      toolCalls_of ?r2 = []"
    by (simp add: test_env_def stock_then_answer_def scripted_def toolCalls_of_def call_def)
  have d: "get_stock_data test_env failing_provider (tc_args ?c) =
     Inr (Text ''Error fetching stock data for AAPL: Massive API failed: 500 Internal Server Error'')"
    using t [THEN conjunct1] by (simp add: error_message_def)
  have o: "outcome (runStockAnalysis test_env failing_provider stock_then_answer ''Regarding AAPL: price?'' [] 0)
     = Inr ''AAPL is steady.''"
    using t [THEN conjunct2, rule_format, OF h, THEN conjunct1] by simp
  show ?thesis using g a d o by (intro conjI)
qed

subsection \<open>The ticker expression\<close>

lemma nullable_iff: "nullable r = ([] \<in> lang r)"
  by (induction r) auto

lemma lang_deriv: "(s \<in> lang (deriv ch r)) = (ch # s \<in> lang r)"
proof (induction r arbitrary: s)
  case (Seq r1 r2)
  show ?case
  proof
    assume "s \<in> lang (deriv ch (Seq r1 r2))"
    then consider (left) u v where "s = u @ v" "u \<in> lang (deriv ch r1)" "v \<in> lang r2"
      | (right) "nullable r1" "s \<in> lang (deriv ch r2)"
      by (auto split: if_splits)
    then show "ch # s \<in> lang (Seq r1 r2)"
    proof cases
      case left
      then have "ch # s = (ch # u) @ v \<and> ch # u \<in> lang r1 \<and> v \<in> lang r2"
        using Seq.IH(1) by simp
      then show ?thesis by (simp del: append_Cons) blast
    next
      case right
      then have "ch # s = [] @ (ch # s) \<and> [] \<in> lang r1 \<and> ch # s \<in> lang r2"
        using Seq.IH(2) by (simp add: nullable_iff)
      then show ?thesis by (simp del: append_Nil) blast
    qed
  next
    assume "ch # s \<in> lang (Seq r1 r2)"
    then obtain u v where uv: "ch # s = u @ v" "u \<in> lang r1" "v \<in> lang r2" by auto
    show "s \<in> lang (deriv ch (Seq r1 r2))"
    proof (cases u)
      case Nil
      then have "nullable r1" "s \<in> lang (deriv ch r2)"
        using uv Seq.IH(2) by (simp_all add: nullable_iff)
      then show ?thesis by simp
    next
      case (Cons a u')
      then have "s = u' @ v" "u' \<in> lang (deriv ch r1)" using uv Seq.IH(1) by simp_all
      then show ?thesis using uv(3) by auto
    qed
  qed
qed auto

lemma regex_test_iff: "regex_test r s = (s \<in> lang r)"
  unfolding regex_test_def
  by (induction s arbitrary: r) (simp_all add: nullable_iff lang_deriv)

lemma in_range_AZ: "in_range CHR ''A'' CHR ''Z'' ch = is_upper ch"
proof (cases ch)
  case (Char b0 b1 b2 b3 b4 b5 b6 b7)
  show ?thesis
    unfolding Char in_range_def is_upper_def
    by (cases b0; cases b1; cases b2; cases b3; cases b4; cases b5; cases b6; cases b7; simp)
qed

lemma ascii_upper_is_upper: "is_upper (ascii_upper ch) = is_letter ch"
proof (cases ch)
  case (Char b0 b1 b2 b3 b4 b5 b6 b7)
  show ?thesis
    unfolding Char is_upper_def is_letter_def ascii_upper_def
    by (cases b0; cases b1; cases b2; cases b3; cases b4; cases b5; cases b6; cases b7; simp)
qed

lemma ascii_upper_dot: "(ascii_upper ch = CHR ''.'') = (ch = CHR ''.'')"
proof (cases ch)
  case (Char b0 b1 b2 b3 b4 b5 b6 b7)
  show ?thesis
    unfolding Char ascii_upper_def
    by (cases b0; cases b1; cases b2; cases b3; cases b4; cases b5; cases b6; cases b7; simp)
qed

lemma ascii_upper_hyphen: "(ascii_upper ch = CHR ''-'') = (ch = CHR ''-'')"
proof (cases ch)
  case (Char b0 b1 b2 b3 b4 b5 b6 b7)
  show ?thesis
    unfolding Char ascii_upper_def
    by (cases b0; cases b1; cases b2; cases b3; cases b4; cases b5; cases b6; cases b7; simp)
qed

lemma one_char_then:
  "(\<exists>u v. w = u @ v \<and> (\<exists>ch. u = [ch] \<and> Q ch) \<and> R v) = (\<exists>ch v. w = ch # v \<and> Q ch \<and> R v)"
proof
  assume "\<exists>u v. w = u @ v \<and> (\<exists>ch. u = [ch] \<and> Q ch) \<and> R v"
  then obtain u v ch where "w = u @ v" "u = [ch]" "Q ch" "R v" by blast
  then have "w = ch # v \<and> Q ch \<and> R v" by simp
  then show "\<exists>ch v. w = ch # v \<and> Q ch \<and> R v" by blast
next
  assume "\<exists>ch v. w = ch # v \<and> Q ch \<and> R v"
  then obtain ch v where "w = ch # v" "Q ch" "R v" by blast
  then have "w = [ch] @ v \<and> (\<exists>c. [ch] = [c] \<and> Q c) \<and> R v" by simp
  then show "\<exists>u v. w = u @ v \<and> (\<exists>ch. u = [ch] \<and> Q ch) \<and> R v" by blast
qed

lemma in_lang_Seq_AZ:
  "(w \<in> lang (Seq (Range CHR ''A'' CHR ''Z'') r)) = (\<exists>ch v. w = ch # v \<and> is_upper ch \<and> v \<in> lang r)"
  using one_char_then [of w is_upper "\<lambda>v. v \<in> lang r"] by (simp add: in_range_AZ)

lemma in_lang_Seq_Class:
  "(w \<in> lang (Seq (Class cs) r)) = (\<exists>ch v. w = ch # v \<and> ch \<in> set cs \<and> v \<in> lang r)"
  using one_char_then [of w "\<lambda>ch. ch \<in> set cs" "\<lambda>v. v \<in> lang r"] by simp

lemma in_lang_repeat_upto:
  "(w \<in> lang (repeat_upto (Range CHR ''A'' CHR ''Z'') n)) = (length w \<le> n \<and> list_all is_upper w)"
proof (induction n arbitrary: w)
  case 0
  show ?case by auto
next
  case (Suc n)
  show ?case
  proof (cases w)
    case Nil
    then show ?thesis by (simp add: optional_def)
  next
    case (Cons ch v)
    have "(w \<in> lang (repeat_upto (Range CHR ''A'' CHR ''Z'') (Suc n))) =
        (w \<in> lang (Seq (Range CHR ''A'' CHR ''Z'') (repeat_upto (Range CHR ''A'' CHR ''Z'') n)))"
      using Cons by (simp add: optional_def)
    also have "\<dots> = (is_upper ch \<and> v \<in> lang (repeat_upto (Range CHR ''A'' CHR ''Z'') n))"
      unfolding in_lang_Seq_AZ using Cons by simp
    also have "\<dots> = (length w \<le> Suc n \<and> list_all is_upper w)"
      using Cons Suc.IH [of v] by auto
    finally show ?thesis .
  qed
qed

lemma repeat_between_1_6: "repeat_between r 1 6 = Seq r (repeat_upto r 5)"
proof -
  have "repeat_between r (Suc 0) 6 = Seq r (repeat_between r 0 (6 - 1))"
    by (rule repeat_between.simps)
  then show ?thesis by simp
qed

lemma in_lang_letters:
  "(u \<in> lang (repeat_between (Range CHR ''A'' CHR ''Z'') 1 6)) =
     (1 \<le> length u \<and> length u \<le> 6 \<and> list_all is_upper u)"
  unfolding repeat_between_1_6 in_lang_Seq_AZ in_lang_repeat_upto
  by (cases u) auto

lemma in_lang_suffix:
  "(v \<in> lang (optional (Seq (Class ''.-'') (Range CHR ''A'' CHR ''Z'')))) =
     (v = [] \<or> (\<exists>sep ch. v = [sep, ch] \<and> (sep = CHR ''.'' \<or> sep = CHR ''-'') \<and> is_upper ch))"
proof -
  have "(v \<in> lang (optional (Seq (Class ''.-'') (Range CHR ''A'' CHR ''Z'')))) =
      (v \<in> lang (Seq (Class ''.-'') (Range CHR ''A'' CHR ''Z'')) \<or> v = [])"
    unfolding optional_def by (simp only: lang.simps Un_iff singleton_iff)
  also have "\<dots> = ((\<exists>sep rest. v = sep # rest \<and> sep \<in> set ''.-'' \<and>
        rest \<in> lang (Range CHR ''A'' CHR ''Z'')) \<or> v = [])"
    unfolding in_lang_Seq_Class ..
  also have "\<dots> = (v = [] \<or> (\<exists>sep ch. v = [sep, ch] \<and> (sep = CHR ''.'' \<or> sep = CHR ''-'') \<and> is_upper ch))"
    by (auto simp: in_range_AZ)
  finally show ?thesis .
qed

lemma in_lang_tickerRegex:
  "(t \<in> lang tickerRegex) =
     (\<exists>u v. t = u @ v \<and> 1 \<le> length u \<and> length u \<le> 6 \<and> list_all is_upper u \<and>
        (v = [] \<or> (\<exists>sep ch. v = [sep, ch] \<and> (sep = CHR ''.'' \<or> sep = CHR ''-'') \<and> is_upper ch)))"
proof -
  have "(t \<in> lang tickerRegex) =
      (\<exists>u v. t = u @ v \<and> u \<in> lang (repeat_between (Range CHR ''A'' CHR ''Z'') 1 6) \<and>
         v \<in> lang (optional (Seq (Class ''.-'') (Range CHR ''A'' CHR ''Z''))))"
    unfolding tickerRegex_def by (simp only: lang.simps) blast
  then show ?thesis unfolding in_lang_letters in_lang_suffix by simp
qed

lemma characters_ascii: "list_all is_ascii s \<Longrightarrow> characters s = map (\<lambda>b. [b]) s"
  by (induction s) simp_all

lemma toUpperCase_ascii: "list_all is_ascii s \<Longrightarrow> toUpperCase E s = map ascii_upper s"
  by (induction s) (simp_all add: toUpperCase_def characters_ascii upper_of_def)

lemma toUpperCase_Nil: "toUpperCase E [] = []"
  by (simp add: toUpperCase_def)

lemma set_strip: "set (strip ws s) \<subseteq> set s"
proof (induction ws s rule: strip.induct)
  case (1 ws s)
  show ?case
  proof (cases "leading_space ws s")
    case None
    then show ?thesis by (simp add: strip.simps [of ws s])
  next
    case (Some w)
    have "set (strip ws (drop (length w) s)) \<subseteq> set (drop (length w) s)"
      using Some by (rule "1.IH")
    also have "\<dots> \<subseteq> set s" by (rule set_drop_subset)
    finally show ?thesis using Some by (simp add: strip.simps [of ws s])
  qed
qed

lemma set_trim: "set (trim s) \<subseteq> set s"
proof -
  have "set (trim s) \<subseteq> set (rev (strip white_space s))"
    unfolding trim_def set_rev [of "strip (map rev white_space) (rev (strip white_space s))"]
    by (rule set_strip)
  also have "\<dots> \<subseteq> set s" unfolding set_rev by (rule set_strip)
  finally show ?thesis .
qed

lemma trim_ascii: "list_all is_ascii s \<Longrightarrow> list_all is_ascii (trim s)"
  using set_trim [of s] by (auto simp: list_all_iff)

lemma sep_not_upper: "\<not> is_upper CHR ''.''" "\<not> is_upper CHR ''-''"
  by (simp_all add: is_upper_def)

text \<open>The expression against the format on the uppercased text.\<close>

lemma regex_upper_format: "regex_test tickerRegex t = upper_ticker_format t"
proof
  assume "regex_test tickerRegex t"
  then obtain u v where uv: "t = u @ v" "1 \<le> length u" "length u \<le> 6"
      "list_all is_upper u"
      "v = [] \<or> (\<exists>sep ch. v = [sep, ch] \<and> (sep = CHR ''.'' \<or> sep = CHR ''-'') \<and> is_upper ch)"
    unfolding regex_test_iff in_lang_tickerRegex by blast
  have letters: "\<forall>ch \<in> set u. is_upper ch" using uv(4) by (simp add: list_all_iff)
  from uv(5) show "upper_ticker_format t"
  proof
    assume "v = []"
    then have tw: "takeWhile is_upper t = u" and dw: "dropWhile is_upper t = []"
      using letters uv(1) by simp_all
    show ?thesis using uv(2,3) by (simp add: upper_ticker_format_def tw dw)
  next
    assume "\<exists>sep ch. v = [sep, ch] \<and> (sep = CHR ''.'' \<or> sep = CHR ''-'') \<and> is_upper ch"
    then obtain sep ch where v: "v = [sep, ch]" "sep = CHR ''.'' \<or> sep = CHR ''-''" "is_upper ch"
      by blast
    have ns: "\<not> is_upper sep" using v(2) sep_not_upper by auto
    have tw: "takeWhile is_upper t = u" and dw: "dropWhile is_upper t = [sep, ch]"
      using letters ns unfolding uv(1) v(1) by (simp_all add: takeWhile_append2 dropWhile_append2)
    show ?thesis using uv(2,3) v(2,3) by (simp add: upper_ticker_format_def tw dw)
  qed
next
  assume fmt: "upper_ticker_format t"
  define u where "u = takeWhile is_upper t"
  define v where "v = dropWhile is_upper t"
  have t: "t = u @ v" by (simp add: u_def v_def)
  have letters: "list_all is_upper u" unfolding u_def list_all_iff by (auto dest: set_takeWhileD)
  from fmt have len: "1 \<le> length u" "length u \<le> 6"
    and rest: "v = [] \<or> (\<exists>sep ch. v = [sep, ch] \<and> (sep = CHR ''.'' \<or> sep = CHR ''-'') \<and> is_upper ch)"
    unfolding upper_ticker_format_def u_def [symmetric] v_def [symmetric]
    by (auto simp: Let_def split: list.splits)
  have "t = u @ v \<and> 1 \<le> length u \<and> length u \<le> 6 \<and> list_all is_upper u \<and>
      (v = [] \<or> (\<exists>sep ch. v = [sep, ch] \<and> (sep = CHR ''.'' \<or> sep = CHR ''-'') \<and> is_upper ch))"
    using t len letters rest by simp
  then show "regex_test tickerRegex t"
    unfolding regex_test_iff in_lang_tickerRegex
    by - (rule exI [of _ u], rule exI [of _ v])
qed

text \<open>On ASCII text the format on the uppercased text is the format in the spec's words.\<close>

lemma is_upper_o_ascii_upper: "is_upper \<circ> ascii_upper = is_letter"
  by (rule ext) (simp add: ascii_upper_is_upper)

lemma ascii_upper_sep:
  "(ascii_upper sep = CHR ''.'' \<or> ascii_upper sep = CHR ''-'') = (sep = CHR ''.'' \<or> sep = CHR ''-'')"
  by (simp add: ascii_upper_dot ascii_upper_hyphen)

lemma upper_format_map: "upper_ticker_format (map ascii_upper s) = spec_ticker_format s"
proof -
  define rest where "rest = dropWhile is_letter s"
  have "(case map ascii_upper rest of
         [] \<Rightarrow> True
       | [sep, ch] \<Rightarrow> (sep = CHR ''.'' \<or> sep = CHR ''-'') \<and> is_upper ch
       | _ \<Rightarrow> False) =
     (case rest of
         [] \<Rightarrow> True
       | [sep, ch] \<Rightarrow> (sep = CHR ''.'' \<or> sep = CHR ''-'') \<and> is_letter ch
       | _ \<Rightarrow> False)"
    by (cases rest; cases "tl rest"; cases "tl (tl rest)")
       (simp_all add: ascii_upper_sep ascii_upper_is_upper)
  then show ?thesis
    unfolding upper_ticker_format_def spec_ticker_format_def Let_def
      takeWhile_map dropWhile_map is_upper_o_ascii_upper rest_def
    by simp
qed

lemma accepted_iff: "accepted E input = upper_ticker_format (toUpperCase E (trim input))"
proof (cases "trim input = []")
  case True
  then show ?thesis
    by (simp add: accepted_def handleSubmit_def toUpperCase_Nil upper_ticker_format_def)
next
  case False
  then show ?thesis
    by (simp add: accepted_def handleSubmit_def Let_def regex_upper_format)
qed

lemma accepted_ascii:
  assumes "list_all is_ascii input"
  shows "accepted E input = spec_ticker_format (trim input)"
  unfolding accepted_iff toUpperCase_ascii [OF trim_ascii [OF assms]] by (rule upper_format_map)

text \<open>
  C8. The ticker check of \<^verbatim>\<open>handleSubmit\<close> trims the input, uppercases it and lets it
  through exactly when the uppercased text is 1 to 6 letters \<^verbatim>\<open>A\<close> to \<^verbatim>\<open>Z\<close>, optionally
  followed by a dot or a hyphen and one more letter \<^verbatim>\<open>A\<close> to \<^verbatim>\<open>Z\<close>. For an input of ASCII
  characters that is: the trimmed input is 1 to 6 letters of either case, optionally
  followed by a dot or a hyphen and one more letter. An input that is let through goes
  on with its uppercased ticker; any other is ignored (blank) or answered with the
  format error, and the function returns before any request is made. "AAPL", "BRK.B"
  and "BF-A" are let through; "aapl1", "TOOLONG7", the empty input and "123" are not.
\<close>

theorem ticker_validation:
  "accepted E input = upper_ticker_format (toUpperCase E (trim input)) \<and>
   (list_all is_ascii input \<longrightarrow> accepted E input = spec_ticker_format (trim input)) \<and>
   (accepted E input \<longrightarrow> handleSubmit E input = Proceed (toUpperCase E (trim input))) \<and>
   (\<not> accepted E input \<longrightarrow> handleSubmit E input = Ignored \<or> handleSubmit E input = InvalidFormat) \<and>
   accepted E ''AAPL'' \<and> accepted E ''BRK.B'' \<and> accepted E ''BF-A'' \<and>
   \<not> accepted E ''aapl1'' \<and> \<not> accepted E ''TOOLONG7'' \<and> \<not> accepted E [] \<and> \<not> accepted E ''123''"
proof (intro conjI)
  show "accepted E input = upper_ticker_format (toUpperCase E (trim input))" by (rule accepted_iff)
  show "list_all is_ascii input \<longrightarrow> accepted E input = spec_ticker_format (trim input)"
    using accepted_ascii by blast
  show "accepted E input \<longrightarrow> handleSubmit E input = Proceed (toUpperCase E (trim input))"
    by (simp add: accepted_def handleSubmit_def Let_def)
  show "\<not> accepted E input \<longrightarrow> handleSubmit E input = Ignored \<or> handleSubmit E input = InvalidFormat"
    by (simp add: accepted_def handleSubmit_def Let_def)
  have "list_all is_ascii ''AAPL''" "spec_ticker_format (trim ''AAPL'')" by code_simp+
  then show "accepted E ''AAPL''" by (simp only: accepted_ascii)
  have "list_all is_ascii ''BRK.B''" "spec_ticker_format (trim ''BRK.B'')" by code_simp+
  then show "accepted E ''BRK.B''" by (simp only: accepted_ascii)
  have "list_all is_ascii ''BF-A''" "spec_ticker_format (trim ''BF-A'')" by code_simp+
  then show "accepted E ''BF-A''" by (simp only: accepted_ascii)
  have "list_all is_ascii ''aapl1''" "\<not> spec_ticker_format (trim ''aapl1'')" by code_simp+
  then show "\<not> accepted E ''aapl1''" by (simp only: accepted_ascii simp_thms)
  have "list_all is_ascii ''TOOLONG7''" "\<not> spec_ticker_format (trim ''TOOLONG7'')" by code_simp+
  then show "\<not> accepted E ''TOOLONG7''" by (simp only: accepted_ascii simp_thms)
  have "list_all is_ascii []" "\<not> spec_ticker_format (trim [])" by code_simp+
  then show "\<not> accepted E []" by (simp only: accepted_ascii simp_thms)
  have "list_all is_ascii ''123''" "\<not> spec_ticker_format (trim ''123'')" by code_simp+
  then show "\<not> accepted E ''123''" by (simp only: accepted_ascii simp_thms)
qed

text \<open>
  The format as first stated, on the input text alone, is not what the check decides.
  With the Unicode upper-case mapping the one character \<^verbatim>\<open>U+00DF\<close> is let through as
  \<^verbatim>\<open>SS\<close> although it is no letter \<^verbatim>\<open>A\<close> to \<^verbatim>\<open>Z\<close> of either case, four of them are
  rejected (eight characters once uppercased), and the letter \<^verbatim>\<open>U+00E9\<close> is rejected.
\<close>

theorem ticker_validation_counterexample:
  "handleSubmit test_env [CHR 0xC3, CHR 0x9F] = Proceed ''SS'' \<and>
   \<not> spec_ticker_format (trim [CHR 0xC3, CHR 0x9F]) \<and>
   handleSubmit test_env [CHR 0xC3, CHR 0x9F, CHR 0xC3, CHR 0x9F, CHR 0xC3, CHR 0x9F, CHR 0xC3, CHR 0x9F]
     = InvalidFormat \<and>
   handleSubmit test_env [CHR 0xC3, CHR 0xA9] = InvalidFormat"
  by code_simp

theorem ticker_validation_witness:
  "list_all is_ascii '' brk.b '' \<and> spec_ticker_format (trim '' brk.b '') \<and>
   accepted test_env '' brk.b '' \<and> handleSubmit test_env '' brk.b '' = Proceed ''BRK.B'' \<and>
   accepted test_env ([CHR 0xC2, CHR 0xA0] @ ''aapl'') \<and>
   handleSubmit test_env ([CHR 0xC2, CHR 0xA0] @ ''aapl'') = Proceed ''AAPL'' \<and>
   list_all is_ascii ''BRK.'' \<and> \<not> spec_ticker_format (trim ''BRK.'') \<and>
   \<not> accepted test_env ''BRK.'' \<and> handleSubmit test_env ''BRK.'' = InvalidFormat"
proof -
  let ?nbsp = "[CHR 0xC2, CHR 0xA0] @ ''aapl''"
  have a: "list_all is_ascii '' brk.b ''" "spec_ticker_format (trim '' brk.b '')" by code_simp+
  have b: "toUpperCase test_env (trim '' brk.b '') = ''BRK.B''" by code_simp
  have c: "list_all is_ascii ''BRK.''" "\<not> spec_ticker_format (trim ''BRK.'')" by code_simp+
  have d: "handleSubmit test_env ''BRK.'' \<noteq> Ignored" by code_simp
  have n: "upper_ticker_format (toUpperCase test_env (trim ?nbsp))" by code_simp
  have m: "toUpperCase test_env (trim ?nbsp) = ''AAPL''" by code_simp
  note t1 = ticker_validation [of test_env "'' brk.b ''"]
  note t2 = ticker_validation [of test_env "''BRK.''"]
  note t3 = ticker_validation [of test_env ?nbsp]
  have e: "accepted test_env '' brk.b ''"
    using t1 [THEN conjunct2, THEN conjunct1] a by simp
  have f: "handleSubmit test_env '' brk.b '' = Proceed ''BRK.B''"
    using t1 [THEN conjunct2, THEN conjunct2, THEN conjunct1] e b by simp
  have g: "\<not> accepted test_env ''BRK.''"
    using t2 [THEN conjunct2, THEN conjunct1] c by simp
  have h: "handleSubmit test_env ''BRK.'' = InvalidFormat"
    using t2 [THEN conjunct2, THEN conjunct2, THEN conjunct2, THEN conjunct1] g d by simp
  have i: "accepted test_env ?nbsp" using t3 [THEN conjunct1] n by simp
  have j: "handleSubmit test_env ?nbsp = Proceed ''AAPL''"
    using t3 [THEN conjunct2, THEN conjunct2, THEN conjunct1] i m by simp
  show ?thesis using a e f i j c g h by (intro conjI)
qed

end
